theory Spec2Isabelle
  imports Main
begin

section \<open>Python values and exceptions\<close>

text \<open>
  The tool arguments arrive as JSON and are dynamically typed (\<^verbatim>\<open>Dict[str, Any]\<close>).
  The model keeps the scalar JSON values; floats and nested containers are left out.
\<close>

datatype pyval = PNone | PBool bool | PInt int | PStr string

text \<open>
  Exceptions as values. \<open>FileNotFoundError\<close> and \<open>HTTPException\<close> are the two the server
  raises itself; \<open>KeyError\<close>, \<open>TypeError\<close>, \<open>ValueError\<close> and \<open>OverflowError\<close> come from
  the Python runtime (dictionary subscripts, \<^verbatim>\<open>datetime\<close>); \<open>ExternalError\<close> stands for
  whatever the OAuth library or the calendar client raises.
\<close>

datatype py_error =
    KeyError string
  | TypeError string
  | ValueError string
  | OverflowError string
  | FileNotFoundError string
  | HTTPException nat string
  | ExternalError string

section \<open>Strings: decimal formatting and \<^verbatim>\<open>join\<close>\<close>

definition digit_char :: "nat \<Rightarrow> char" where
  "digit_char n = ''0123456789'' ! (n mod 10)"

function str_nat :: "int \<Rightarrow> string" where
  "str_nat n =
     (if n < 10 then [digit_char (nat n)]
      else str_nat (n div 10) @ [digit_char (nat (n mod 10))])"
  by pat_completeness auto
termination
  by (relation "measure nat") auto

declare str_nat.simps [simp del]

definition str_int :: "int \<Rightarrow> string" where
  "str_int i = (if i < 0 then CHR ''-'' # str_nat (- i) else str_nat i)"

text \<open>\<^verbatim>\<open>"%0wd" % i\<close> for a non-negative \<open>i\<close>.\<close>

definition zero_pad :: "nat \<Rightarrow> int \<Rightarrow> string" where
  "zero_pad w i = (let s = str_int i in replicate (w - length s) (CHR ''0'') @ s)"

definition digit_val :: "char \<Rightarrow> int option" where
  "digit_val c =
     (let n = (of_char c :: nat) in if 48 \<le> n \<and> n \<le> 57 then Some (int n - 48) else None)"

text \<open>\<^verbatim>\<open>sep.join(xs)\<close>.\<close>

fun join :: "string \<Rightarrow> string list \<Rightarrow> string" where
  "join sep [] = []"
| "join sep [x] = x"
| "join sep (x # y # ys) = x @ sep @ join sep (y # ys)"

section \<open>\<^verbatim>\<open>datetime\<close> and \<^verbatim>\<open>timedelta\<close>\<close>

text \<open>
  A \<^verbatim>\<open>datetime\<close> object: the calendar fields and the optional fixed UTC offset
  (\<open>tzinfo = None\<close> is a naive datetime; \<open>Some off\<close> is \<^verbatim>\<open>timezone(timedelta(microseconds=off))\<close>).
\<close>

record datetime =
  year :: int
  month :: int
  day :: int
  hour :: int
  minute :: int
  second :: int
  microsecond :: int
  tzinfo :: "int option"

text \<open>A normalised \<^verbatim>\<open>timedelta\<close>: \<open>0 \<le> seconds < 86400\<close>, \<open>0 \<le> microseconds < 10^6\<close>.\<close>

record timedelta =
  days :: int
  seconds :: int
  microseconds :: int

definition MINYEAR :: int where "MINYEAR = 1"
definition MAXYEAR :: int where "MAXYEAR = 9999"
definition MAXORDINAL :: int where "MAXORDINAL = 3652059"

definition is_leap :: "int \<Rightarrow> bool" where
  "is_leap y \<longleftrightarrow> y mod 4 = 0 \<and> (y mod 100 \<noteq> 0 \<or> y mod 400 = 0)"

definition DAYS_IN_MONTH :: "int \<Rightarrow> int" where
  "DAYS_IN_MONTH m =
     (if m = 2 then 28 else if m = 4 \<or> m = 6 \<or> m = 9 \<or> m = 11 then 30 else 31)"

definition DAYS_BEFORE_MONTH :: "int \<Rightarrow> int" where
  "DAYS_BEFORE_MONTH m =
     (if m = 1 then 0 else if m = 2 then 31 else if m = 3 then 59 else if m = 4 then 90
      else if m = 5 then 120 else if m = 6 then 151 else if m = 7 then 181
      else if m = 8 then 212 else if m = 9 then 243 else if m = 10 then 273
      else if m = 11 then 304 else 334)"

definition days_before_year :: "int \<Rightarrow> int" where
  "days_before_year y = (let y' = y - 1 in y' * 365 + y' div 4 - y' div 100 + y' div 400)"

definition days_in_month :: "int \<Rightarrow> int \<Rightarrow> int" where
  "days_in_month y m = (if m = 2 \<and> is_leap y then 29 else DAYS_IN_MONTH m)"

definition days_before_month :: "int \<Rightarrow> int \<Rightarrow> int" where
  "days_before_month y m = DAYS_BEFORE_MONTH m + (if m > 2 \<and> is_leap y then 1 else 0)"

text \<open>\<^verbatim>\<open>date.toordinal\<close>: 1 is 0001-01-01.\<close>

definition ymd2ord :: "int \<Rightarrow> int \<Rightarrow> int \<Rightarrow> int" where
  "ymd2ord y m d = days_before_year y + days_before_month y m + d"

definition DI400Y :: int where "DI400Y = 146097"
definition DI100Y :: int where "DI100Y = 36524"
definition DI4Y :: int where "DI4Y = 1461"

text \<open>\<^verbatim>\<open>date.fromordinal\<close>, by the 400/100/4/1-year cycles of the proleptic Gregorian calendar.\<close>

definition ord2ymd :: "int \<Rightarrow> int \<times> int \<times> int" where
  "ord2ymd n =
     (let n0 = n - 1;
          n400 = n0 div DI400Y; r1 = n0 mod DI400Y;
          n100 = r1 div DI100Y; r2 = r1 mod DI100Y;
          n4 = r2 div DI4Y; r3 = r2 mod DI4Y;
          n1 = r3 div 365; r4 = r3 mod 365;
          y = n400 * 400 + 1 + n100 * 100 + n4 * 4 + n1
      in if n1 = 4 \<or> n100 = 4 then (y - 1, 12, 31)
         else
           let leapyear = (n1 = 3 \<and> (n4 \<noteq> 24 \<or> n100 = 3));
               m = (r4 + 50) div 32;
               preceding = DAYS_BEFORE_MONTH m + (if m > 2 \<and> leapyear then 1 else 0)
           in if preceding > r4
              then let m' = m - 1;
                       preceding' = preceding
                         - (DAYS_IN_MONTH m' + (if m' = 2 \<and> leapyear then 1 else 0))
                   in (y, m', r4 - preceding' + 1)
              else (y, m, r4 - preceding + 1))"

text \<open>
  The \<^verbatim>\<open>timedelta\<close> constructor normalises its arguments and refuses a result of more
  than 999999999 days in either direction.
\<close>

definition new_timedelta :: "int \<Rightarrow> int \<Rightarrow> int \<Rightarrow> py_error + timedelta" where
  "new_timedelta d s us =
     (let s1 = s + us div 1000000; us' = us mod 1000000;
          d' = d + s1 div 86400; s' = s1 mod 86400
      in if \<bar>d'\<bar> > 999999999
         then Inl (OverflowError (''days='' @ str_int d' @ ''; must have magnitude <= 999999999''))
         else Inr \<lparr>days = d', seconds = s', microseconds = us'\<rparr>)"

text \<open>
  \<^verbatim>\<open>timedelta(minutes=v)\<close> and \<^verbatim>\<open>timedelta(days=v)\<close> on a dynamically typed argument:
  \<^verbatim>\<open>bool\<close> is an \<^verbatim>\<open>int\<close>, anything else that is not a number is a \<^verbatim>\<open>TypeError\<close>.
\<close>

definition timedelta_minutes :: "pyval \<Rightarrow> py_error + timedelta" where
  "timedelta_minutes v =
     (case v of
        PInt n \<Rightarrow> new_timedelta 0 (60 * n) 0
      | PBool b \<Rightarrow> new_timedelta 0 (60 * (if b then 1 else 0)) 0
      | _ \<Rightarrow> Inl (TypeError ''unsupported type for timedelta minutes component''))"

definition timedelta_days :: "pyval \<Rightarrow> py_error + timedelta" where
  "timedelta_days v =
     (case v of
        PInt n \<Rightarrow> new_timedelta n 0 0
      | PBool b \<Rightarrow> new_timedelta (if b then 1 else 0) 0 0
      | _ \<Rightarrow> Inl (TypeError ''unsupported type for timedelta days component''))"

text \<open>
  \<^verbatim>\<open>datetime.__add__\<close>: the datetime as a timedelta since ordinal 0, plus the other
  operand, converted back; the offset is carried over unchanged. A result outside
  0001-01-01 .. 9999-12-31 is an \<^verbatim>\<open>OverflowError\<close>.
\<close>

definition datetime_add :: "datetime \<Rightarrow> timedelta \<Rightarrow> py_error + datetime" where
  "datetime_add dt other =
     (case new_timedelta (ymd2ord (year dt) (month dt) (day dt) + days other)
             (hour dt * 3600 + minute dt * 60 + second dt + seconds other)
             (microsecond dt + microseconds other) of
        Inl e \<Rightarrow> Inl e
      | Inr delta \<Rightarrow>
          if 0 < days delta \<and> days delta \<le> MAXORDINAL
          then (case ord2ymd (days delta) of (y, m, d) \<Rightarrow>
                  Inr \<lparr>year = y, month = m, day = d,
                       hour = seconds delta div 3600,
                       minute = (seconds delta mod 3600) div 60,
                       second = (seconds delta mod 3600) mod 60,
                       microsecond = microseconds delta,
                       tzinfo = tzinfo dt\<rparr>)
          else Inl (OverflowError ''date value out of range''))"

text \<open>\<^verbatim>\<open>_format_offset\<close>: \<open>+HH:MM\<close>, with \<open>:SS\<close> and \<open>.ffffff\<close> only when they are not zero.\<close>

definition format_offset :: "int \<Rightarrow> string" where
  "format_offset off =
     (let sign = (if off < 0 then CHR ''-'' else CHR ''+'');
          a = \<bar>off\<bar>;
          hh = a div 3600000000;
          mm = (a mod 3600000000) div 60000000;
          ss = (a mod 60000000) div 1000000;
          us = a mod 1000000
      in sign # zero_pad 2 hh @ '':'' @ zero_pad 2 mm
         @ (if ss \<noteq> 0 \<or> us \<noteq> 0
            then '':'' @ zero_pad 2 ss @ (if us \<noteq> 0 then ''.'' @ zero_pad 6 us else [])
            else []))"

text \<open>\<^verbatim>\<open>datetime.isoformat()\<close> without the offset.\<close>

definition isoformat_naive :: "datetime \<Rightarrow> string" where
  "isoformat_naive dt =
     zero_pad 4 (year dt) @ ''-'' @ zero_pad 2 (month dt) @ ''-'' @ zero_pad 2 (day dt)
     @ ''T'' @ zero_pad 2 (hour dt) @ '':'' @ zero_pad 2 (minute dt) @ '':''
     @ zero_pad 2 (second dt)
     @ (if microsecond dt \<noteq> 0 then ''.'' @ zero_pad 6 (microsecond dt) else [])"

definition isoformat :: "datetime \<Rightarrow> string" where
  "isoformat dt =
     isoformat_naive dt @ (case tzinfo dt of None \<Rightarrow> [] | Some off \<Rightarrow> format_offset off)"

text \<open>
  The position of a datetime on its own (local) time line, in microseconds since the
  midnight before 0001-01-01. It is used to state what \<open>datetime_add\<close> computes.
\<close>

definition datetime_micros :: "datetime \<Rightarrow> int" where
  "datetime_micros dt =
     ((ymd2ord (year dt) (month dt) (day dt) * 86400
        + hour dt * 3600 + minute dt * 60 + second dt) * 1000000) + microsecond dt"

subsection \<open>\<^verbatim>\<open>datetime.fromisoformat\<close>\<close>

text \<open>
  The constructor's range checks (\<^verbatim>\<open>_check_date_fields\<close>, \<^verbatim>\<open>_check_time_fields\<close>) and the
  bound on a fixed offset (\<^verbatim>\<open>timezone\<close>: strictly between -24 h and +24 h).
\<close>

definition check_date_fields :: "int \<Rightarrow> int \<Rightarrow> int \<Rightarrow> bool" where
  "check_date_fields y m d \<longleftrightarrow>
     MINYEAR \<le> y \<and> y \<le> MAXYEAR \<and> 1 \<le> m \<and> m \<le> 12 \<and> 1 \<le> d \<and> d \<le> days_in_month y m"

definition check_time_fields :: "int \<Rightarrow> int \<Rightarrow> int \<Rightarrow> int \<Rightarrow> bool" where
  "check_time_fields h mi s us \<longleftrightarrow>
     0 \<le> h \<and> h \<le> 23 \<and> 0 \<le> mi \<and> mi \<le> 59 \<and> 0 \<le> s \<and> s \<le> 59 \<and> 0 \<le> us \<and> us \<le> 999999"

definition check_utcoffset :: "int option \<Rightarrow> bool" where
  "check_utcoffset tz \<longleftrightarrow>
     (case tz of None \<Rightarrow> True | Some off \<Rightarrow> - 86400000000 < off \<and> off < 86400000000)"

definition new_datetime ::
  "int \<Rightarrow> int \<Rightarrow> int \<Rightarrow> int \<Rightarrow> int \<Rightarrow> int \<Rightarrow> int \<Rightarrow> int option \<Rightarrow> py_error + datetime" where
  "new_datetime y m d h mi s us tz =
     (if \<not> (MINYEAR \<le> y \<and> y \<le> MAXYEAR)
      then Inl (ValueError (''year '' @ str_int y @ '' is out of range''))
      else if \<not> (1 \<le> m \<and> m \<le> 12) then Inl (ValueError ''month must be in 1..12'')
      else if \<not> check_date_fields y m d then Inl (ValueError ''day is out of range for month'')
      else if \<not> (0 \<le> h \<and> h \<le> 23) then Inl (ValueError ''hour must be in 0..23'')
      else if \<not> (0 \<le> mi \<and> mi \<le> 59) then Inl (ValueError ''minute must be in 0..59'')
      else if \<not> (0 \<le> s \<and> s \<le> 59) then Inl (ValueError ''second must be in 0..59'')
      else if \<not> check_time_fields h mi s us
      then Inl (ValueError ''microsecond must be in 0..999999'')
      else Inr \<lparr>year = y, month = m, day = d, hour = h, minute = mi, second = s,
                microsecond = us, tzinfo = tz\<rparr>)"

text \<open>
  The parser, as CPython 3.11 has it (\<^verbatim>\<open>datetime_fromisoformat\<close> and its helpers in
  \<^verbatim>\<open>_datetimemodule.c\<close>). It works on the UTF-8 bytes of the string, which end in a NUL
  byte: reading at or past the end gives NUL. A character of the model above 127 is the code
  point of that number and takes two bytes.
\<close>

definition utf8 :: "string \<Rightarrow> string" where
  "utf8 s =
     concat (map (\<lambda>c. let n = (of_char c :: nat)
                       in if n < 128 then [c]
                          else [char_of (192 + n div 64), char_of (128 + n mod 64)]) s)"

definition char_at :: "string \<Rightarrow> nat \<Rightarrow> char" where
  "char_at s i = (if i < length s then s ! i else CHR 0x00)"

definition is_digit :: "char \<Rightarrow> bool" where
  "is_digit c \<longleftrightarrow> digit_val c \<noteq> None"

text \<open>\<^verbatim>\<open>parse_digits(ptr, &var, num_digits)\<close>: the position after the digits and their value.\<close>

fun parse_digits :: "string \<Rightarrow> nat \<Rightarrow> nat \<Rightarrow> int \<Rightarrow> (nat \<times> int) option" where
  "parse_digits s p 0 var = Some (p, var)"
| "parse_digits s p (Suc n) var =
     (case digit_val (char_at s p) of
        None \<Rightarrow> None
      | Some d \<Rightarrow> parse_digits s (Suc p) n (var * 10 + d))"

text \<open>The first position from \<open>i\<close> on that holds no digit.\<close>

function skip_digits :: "string \<Rightarrow> nat \<Rightarrow> nat" where
  "skip_digits s i = (if i < length s \<and> is_digit (s ! i) then skip_digits s (Suc i) else i)"
  by pat_completeness auto
termination
  by (relation "measure (\<lambda>(s, i). length s - i)") auto

declare skip_digits.simps [simp del]

text \<open>
  \<^verbatim>\<open>_find_isoformat_datetime_separator\<close>: where the date ends. The date is one of
  \<^verbatim>\<open>YYYY-MM-DD\<close>, \<^verbatim>\<open>YYYYMMDD\<close>, \<^verbatim>\<open>YYYY-Www\<close>, \<^verbatim>\<open>YYYY-Www-d\<close>, \<^verbatim>\<open>YYYYWww\<close>, \<^verbatim>\<open>YYYYWwwd\<close>;
  \<open>None\<close> is the C function's \<open>-1\<close>.
\<close>

definition find_isoformat_datetime_separator :: "string \<Rightarrow> nat option" where
  "find_isoformat_datetime_separator dtstr =
     (let len = length dtstr
      in if len = 7 then Some 7
         else if char_at dtstr 4 = CHR ''-'' then
           (if char_at dtstr 5 = CHR ''W'' then
              (if len < 8 then None
               else if len > 8 \<and> char_at dtstr 8 = CHR ''-'' then
                 (if len = 9 then None
                  else if len > 10 \<and> is_digit (char_at dtstr 10) then Some 8
                  else Some 10)
               else Some 8)
            else Some 10)
         else if char_at dtstr 4 = CHR ''W'' then
           (let idx = skip_digits dtstr 7
            in if idx < 9 then Some idx else if even idx then Some 7 else Some 8)
         else Some 8)"

text \<open>ISO week dates: \<^verbatim>\<open>weekday\<close> (Monday is 0), \<^verbatim>\<open>iso_week1_monday\<close>, \<^verbatim>\<open>iso_to_ymd\<close>.\<close>

definition weekday :: "int \<Rightarrow> int \<Rightarrow> int \<Rightarrow> int" where
  "weekday y m d = (ymd2ord y m d + 6) mod 7"

definition iso_week1_monday :: "int \<Rightarrow> int" where
  "iso_week1_monday y =
     (let first_day = ymd2ord y 1 1;
          first_weekday = (first_day + 6) mod 7;
          week1_monday = first_day - first_weekday
      in if first_weekday > 3 then week1_monday + 7 else week1_monday)"

text \<open>
  For the ISO year 0 every day lies before 0001-01-01; there \<^verbatim>\<open>ord_to_ymd\<close> yields
  the year 1 and a month below 1, which the constructor refuses.
\<close>

definition iso_to_ymd :: "int \<Rightarrow> int \<Rightarrow> int \<Rightarrow> (int \<times> int \<times> int) option" where
  "iso_to_ymd iso_year iso_week iso_day =
     (if (iso_week \<le> 0 \<or> iso_week \<ge> 53)
         \<and> \<not> (iso_week = 53
               \<and> (let first_weekday = weekday iso_year 1 1
                  in first_weekday = 3 \<or> (first_weekday = 2 \<and> is_leap iso_year)))
      then None
      else if iso_day \<le> 0 \<or> iso_day \<ge> 8 then None
      else if iso_year < MINYEAR then Some (1, 0, 1)
      else Some (ord2ymd (iso_week1_monday iso_year + ((iso_week - 1) * 7 + iso_day - 1))))"

text \<open>\<^verbatim>\<open>parse_isoformat_date(dtstr, len, ...)\<close>, \<open>len\<close> being the separator's position.\<close>

definition parse_isoformat_date :: "string \<Rightarrow> nat \<Rightarrow> (int \<times> int \<times> int) option" where
  "parse_isoformat_date dtstr len =
     (case parse_digits dtstr 0 4 0 of
        None \<Rightarrow> None
      | Some (p0, y) \<Rightarrow>
          let uses_separator = (char_at dtstr p0 = CHR ''-'');
              p1 = (if uses_separator then Suc p0 else p0)
          in if char_at dtstr p1 = CHR ''W'' then
               (case parse_digits dtstr (Suc p1) 2 0 of
                  None \<Rightarrow> None
                | Some (p2, iso_week) \<Rightarrow>
                    if p2 < len then
                      (if uses_separator \<and> char_at dtstr p2 \<noteq> CHR ''-'' then None
                       else (case parse_digits dtstr (if uses_separator then Suc p2 else p2) 1 0 of
                               None \<Rightarrow> None
                             | Some (p3, iso_day) \<Rightarrow> iso_to_ymd y iso_week iso_day))
                    else iso_to_ymd y iso_week 1)
             else
               (case parse_digits dtstr p1 2 0 of
                  None \<Rightarrow> None
                | Some (p2, m) \<Rightarrow>
                    if uses_separator \<and> char_at dtstr p2 \<noteq> CHR ''-'' then None
                    else (case parse_digits dtstr (if uses_separator then Suc p2 else p2) 2 0 of
                            None \<Rightarrow> None
                          | Some (p3, d) \<Rightarrow> Some (y, m, d))))"

text \<open>
  The loop of \<^verbatim>\<open>parse_hh_mm_ss_ff\<close> over hours, minutes and seconds, \<open>k\<close> components being
  left and \<open>vals\<close> the ones read. It returns inside the loop when the component ends at
  \<open>p_end\<close> (\<open>Returned rv vals\<close>, \<open>rv\<close> telling that the character after it is not NUL),
  fails, or leaves the loop for the fraction at a position.
\<close>

datatype hms = Malformed | Returned bool "int list" | Fraction nat "int list"

fun hh_mm_ss :: "string \<Rightarrow> nat \<Rightarrow> nat \<Rightarrow> nat \<Rightarrow> bool \<Rightarrow> int list \<Rightarrow> hms" where
  "hh_mm_ss tstr p_end 0 p has_separator vals = Fraction p vals"
| "hh_mm_ss tstr p_end (Suc k) p has_separator vals =
     (case parse_digits tstr p 2 0 of
        None \<Rightarrow> Malformed
      | Some (p1, v) \<Rightarrow>
          let c = char_at tstr p1;
              p2 = Suc p1;
              has_sep = (if vals = [] then c = CHR '':'' else has_separator);
              vals' = vals @ [v]
          in if p2 \<ge> p_end then Returned (c \<noteq> CHR 0x00) vals'
             else if has_sep \<and> c = CHR '':'' then hh_mm_ss tstr p_end k p2 has_sep vals'
             else if c = CHR ''.'' \<or> c = CHR '','' then Fraction p2 vals'
             else if \<not> has_sep then hh_mm_ss tstr p_end k p1 has_sep vals'
             else Malformed)"

definition component :: "int list \<Rightarrow> nat \<Rightarrow> int" where
  "component vals i = (if i < length vals then vals ! i else 0)"

text \<open>
  \<^verbatim>\<open>parse_hh_mm_ss_ff(tstr, tstr_end, ...)\<close> on the part of the string from \<open>p\<close> to \<open>p_end\<close>:
  \<^verbatim>\<open>HH[:MM[:SS]]\<close> or \<^verbatim>\<open>HH[MM[SS]]\<close>, then a fraction of which six digits count. The
  boolean is the return code 1: the character where the parser stopped is not NUL.
\<close>

definition parse_hh_mm_ss_ff ::
  "string \<Rightarrow> nat \<Rightarrow> nat \<Rightarrow> (bool \<times> int \<times> int \<times> int \<times> int) option" where
  "parse_hh_mm_ss_ff tstr p p_end =
     (case hh_mm_ss tstr p_end 3 p True [] of
        Malformed \<Rightarrow> None
      | Returned rv vals \<Rightarrow> Some (rv, component vals 0, component vals 1, component vals 2, 0)
      | Fraction p' vals \<Rightarrow>
          let len_remains = p_end - p';
              to_parse = (if len_remains \<ge> 6 then 6 else len_remains)
          in (case parse_digits tstr p' to_parse 0 of
                None \<Rightarrow> None
              | Some (p'', us) \<Rightarrow>
                  Some (char_at tstr (skip_digits tstr p'') \<noteq> CHR 0x00,
                        component vals 0, component vals 1, component vals 2,
                        us * 10 ^ (6 - to_parse))))"

text \<open>The first \<open>Z\<close>, \<open>+\<close> or \<open>-\<close> of the time string, or else a position at or past its end.\<close>

function find_tzinfo :: "string \<Rightarrow> nat \<Rightarrow> nat" where
  "find_tzinfo tstr i =
     (if char_at tstr i = CHR ''Z'' \<or> char_at tstr i = CHR ''+'' \<or> char_at tstr i = CHR ''-''
      then i
      else if Suc i < length tstr then find_tzinfo tstr (Suc i) else Suc i)"
  by pat_completeness auto
termination
  by (relation "measure (\<lambda>(s, i). length s - i)") auto

declare find_tzinfo.simps [simp del]

text \<open>
  \<^verbatim>\<open>parse_isoformat_time\<close> on the string from \<open>start\<close> on: the time, and the offset as
  whole seconds and microseconds if there is one.
\<close>

definition parse_isoformat_time ::
  "string \<Rightarrow> nat \<Rightarrow> (int \<times> int \<times> int \<times> int \<times> (int \<times> int) option) option" where
  "parse_isoformat_time dtstr start =
     (let p_end = length dtstr;
          tzinfo_pos = find_tzinfo dtstr start
      in case parse_hh_mm_ss_ff dtstr start tzinfo_pos of
           None \<Rightarrow> None
         | Some (rv, h, mi, s, us) \<Rightarrow>
             if tzinfo_pos = p_end then (if rv then None else Some (h, mi, s, us, None))
             else if char_at dtstr tzinfo_pos = CHR ''Z'' then
               (if char_at dtstr (Suc tzinfo_pos) \<noteq> CHR 0x00 then None
                else Some (h, mi, s, us, Some (0, 0)))
             else
               (let tzsign = (if char_at dtstr tzinfo_pos = CHR ''-'' then - 1 else 1)
                in case parse_hh_mm_ss_ff dtstr (Suc tzinfo_pos) p_end of
                     None \<Rightarrow> None
                   | Some (rv', tzhour, tzminute, tzsecond, tzmicrosecond) \<Rightarrow>
                       if rv' then None
                       else Some (h, mi, s, us,
                                  Some (tzsign * (tzhour * 3600 + tzminute * 60 + tzsecond),
                                        tzsign * tzmicrosecond))))"

text \<open>\<^verbatim>\<open>repr\<close> of a string and of a \<^verbatim>\<open>timedelta\<close>, for the messages.\<close>

definition hex_digit :: "nat \<Rightarrow> char" where
  "hex_digit n = ''0123456789abcdef'' ! (n mod 16)"

definition repr_char :: "char \<Rightarrow> char \<Rightarrow> string" where
  "repr_char quote c =
     (let n = (of_char c :: nat)
      in if c = quote \<or> c = CHR 0x5C then [CHR 0x5C, c]
         else if c = CHR 0x09 then [CHR 0x5C, CHR ''t'']
         else if c = CHR 0x0A then [CHR 0x5C, CHR ''n'']
         else if c = CHR 0x0D then [CHR 0x5C, CHR ''r'']
         else if n < 32 \<or> n = 127 \<or> (128 \<le> n \<and> n \<le> 160) \<or> n = 173
         then [CHR 0x5C, CHR ''x'', hex_digit (n div 16), hex_digit n]
         else [c])"

definition repr_str :: "string \<Rightarrow> string" where
  "repr_str s =
     (let quote = (if CHR 0x27 \<in> set s \<and> CHR 0x22 \<notin> set s then CHR 0x22 else CHR 0x27)
      in quote # concat (map (repr_char quote) s) @ [quote])"

definition repr_timedelta :: "int \<Rightarrow> string" where
  "repr_timedelta us =
     (let d = us div 86400000000;
          s = (us mod 86400000000) div 1000000;
          u = us mod 1000000;
          args = (if d \<noteq> 0 then [''days='' @ str_int d] else [])
                 @ (if s \<noteq> 0 then [''seconds='' @ str_int s] else [])
                 @ (if u \<noteq> 0 then [''microseconds='' @ str_int u] else [])
      in ''datetime.timedelta('' @ (if args = [] then ''0'' else join '', '' args) @ '')'')"

text \<open>
  \<^verbatim>\<open>tzinfo_from_isoformat_results\<close>: zero whole seconds give UTC; anything else is
  \<^verbatim>\<open>timezone(timedelta(seconds=tzoffset, microseconds=tz_useconds))\<close>, which must lie strictly
  between -24 h and +24 h. The offset is kept in microseconds.
\<close>

definition tzinfo_from_isoformat_results :: "(int \<times> int) option \<Rightarrow> py_error + int option" where
  "tzinfo_from_isoformat_results tz =
     (case tz of
        None \<Rightarrow> Inr None
      | Some (tzoffset, tz_useconds) \<Rightarrow>
          if tzoffset = 0 then Inr (Some 0)
          else let off = tzoffset * 1000000 + tz_useconds
               in if check_utcoffset (Some off) then Inr (Some off)
                  else Inl (ValueError
                         (''offset must be a timedelta strictly between -timedelta(hours=24) and timedelta(hours=24), not ''
                          @ repr_timedelta off @ ''.'')))"

text \<open>
  \<^verbatim>\<open>datetime.fromisoformat(date_string)\<close>: \<^verbatim>\<open>TypeError\<close> for an argument that is not a
  string, \<^verbatim>\<open>ValueError\<close> for a string outside the grammar or with a field out of range.
\<close>

definition fromisoformat :: "pyval \<Rightarrow> py_error + datetime" where
  "fromisoformat v =
     (case v of
        PStr date_string \<Rightarrow>
          (let dtstr = utf8 date_string;
               len = length dtstr;
               invalid = Inl (ValueError (''Invalid isoformat string: '' @ repr_str date_string))
           in if len < 7 then invalid
              else
                (case find_isoformat_datetime_separator dtstr of
                   None \<Rightarrow> invalid
                 | Some separator_location \<Rightarrow>
                     (case parse_isoformat_date dtstr separator_location of
                        None \<Rightarrow> invalid
                      | Some (y, m, d) \<Rightarrow>
                          (case (if len > separator_location
                                 then let b = (of_char (char_at dtstr separator_location) :: nat);
                                          width = (if b < 128 then 1 else if b div 16 = 14 then 3
                                                   else if b div 16 = 15 then 4 else 2)
                                      in parse_isoformat_time dtstr (separator_location + width)
                                 else Some (0, 0, 0, 0, None)) of
                             None \<Rightarrow> invalid
                           | Some (h, mi, s, us, tz) \<Rightarrow>
                               (case tzinfo_from_isoformat_results tz of
                                  Inl e \<Rightarrow> Inl e
                                | Inr tz' \<Rightarrow> new_datetime y m d h mi s us tz')))))
      | _ \<Rightarrow> Inl (TypeError ''fromisoformat: argument must be str''))"

section \<open>The world outside the server\<close>

text \<open>
  A credential bundle of the OAuth library. \<open>valid\<close> is the library's property:
  an access token is held and it has not expired.
\<close>

record credentials =
  token :: "string option"
  refresh_token :: string
  token_uri :: string
  client_id :: string
  client_secret :: string
  scopes :: "string list"
  expired :: bool

definition valid :: "credentials \<Rightarrow> bool" where
  "valid c \<longleftrightarrow> token c \<noteq> None \<and> \<not> expired c"

text \<open>The handle returned by \<^verbatim>\<open>build('calendar', 'v3', credentials=creds)\<close>.\<close>

datatype service = Service credentials

text \<open>The keyword arguments of \<^verbatim>\<open>events().list(...)\<close>.\<close>

record list_params =
  calendarId :: string
  timeMin :: string
  timeMax :: string
  maxResults :: nat
  singleEvents :: bool
  orderBy :: string

text \<open>The event resource sent by \<^verbatim>\<open>events().insert\<close>: a summary and two times.\<close>

record event_time =
  dateTime :: string
  timeZone :: "string option"

record event_body =
  body_summary :: pyval
  body_start :: event_time
  body_end :: event_time

text \<open>
  An event as the provider lists it: each key may be missing (\<open>None\<close>), and the
  \<^verbatim>\<open>start\<close> object is itself a dictionary.
\<close>

record calendar_event =
  ev_start :: "(string \<rightharpoonup> pyval) option"
  ev_summary :: "pyval option"

text \<open>What the server does to the outside, in order.\<close>

datatype effect =
    PathExists string
  | ReadFile string
  | WriteFile string string
  | RunLocalServer
  | BuildClient
  | EventsList list_params
  | EventsInsert string event_body

text \<open>
  The state a request runs in: the process environment, the file system, the clock, how the
  OAuth library, the client library and the calendar provider answer, and the effects
  performed so far. The library and provider answers are \<open>Inl message\<close> (for \<open>build_error\<close>,
  \<open>Some message\<close>) when the call raises.
\<close>

record world =
  environ :: "string \<rightharpoonup> string"
  script_dir :: string
  files :: "string \<rightharpoonup> string"
  utc_clock :: "nat \<Rightarrow> datetime"
  clock_reads :: nat
  authorized_user_info :: "string \<Rightarrow> string + credentials"
  client_secrets_error :: "string \<Rightarrow> string option"
  consent :: "string \<Rightarrow> string + credentials"
  to_json :: "credentials \<Rightarrow> string"
  build_error :: "credentials \<Rightarrow> string option"
  events_list_execute :: "credentials \<Rightarrow> list_params \<Rightarrow> string + calendar_event list option"
  events_insert_execute :: "credentials \<Rightarrow> string \<Rightarrow> event_body \<Rightarrow> string + pyval option"
  trace :: "effect list"

definition record_effect :: "effect \<Rightarrow> world \<Rightarrow> world" where
  "record_effect e w = w\<lparr>trace := trace w @ [e]\<rparr>"

definition is_filesystem_effect :: "effect \<Rightarrow> bool" where
  "is_filesystem_effect e =
     (case e of PathExists _ \<Rightarrow> True | ReadFile _ \<Rightarrow> True | WriteFile _ _ \<Rightarrow> True
      | BuildClient \<Rightarrow> True | _ \<Rightarrow> False)"

definition is_provider_call :: "effect \<Rightarrow> bool" where
  "is_provider_call e =
     (case e of EventsList _ \<Rightarrow> True | EventsInsert _ _ \<Rightarrow> True | _ \<Rightarrow> False)"

text \<open>\<^verbatim>\<open>os.path.join(SCRIPT_DIR, name)\<close>.\<close>

definition path_join :: "string \<Rightarrow> string \<Rightarrow> string" where
  "path_join d f = (if d = [] \<or> last d = CHR ''/'' then d @ f else d @ ''/'' @ f)"

definition SCOPES :: "string list" where
  "SCOPES = [''https://www.googleapis.com/auth/calendar'']"

definition TOKEN_FILE :: "world \<Rightarrow> string" where
  "TOKEN_FILE w = path_join (script_dir w) ''token.json''"

definition CREDENTIALS_FILE :: "world \<Rightarrow> string" where
  "CREDENTIALS_FILE w = path_join (script_dir w) ''credentials.json''"

definition os_path_exists :: "string \<Rightarrow> world \<Rightarrow> bool \<times> world" where
  "os_path_exists p w = (files w p \<noteq> None, record_effect (PathExists p) w)"

text \<open>\<^verbatim>\<open>datetime.utcnow()\<close>: each call is a fresh reading of the clock.\<close>

definition utcnow :: "world \<Rightarrow> datetime \<times> world" where
  "utcnow w = (utc_clock w (clock_reads w), w\<lparr>clock_reads := Suc (clock_reads w)\<rparr>)"

text \<open>\<^verbatim>\<open>Credentials.from_authorized_user_file(path, SCOPES)\<close>.\<close>

definition from_authorized_user_file :: "string \<Rightarrow> world \<Rightarrow> (py_error + credentials) \<times> world" where
  "from_authorized_user_file p w =
     (let w' = record_effect (ReadFile p) w
      in case files w p of
           None \<Rightarrow> (Inl (FileNotFoundError (''[Errno 2] No such file or directory: '' @ p)), w')
         | Some content \<Rightarrow>
             (case authorized_user_info w content of
                Inl msg \<Rightarrow> (Inl (ExternalError msg), w')
              | Inr c \<Rightarrow> (Inr c, w')))"

text \<open>
  \<^verbatim>\<open>InstalledAppFlow.from_client_secrets_file(path, SCOPES)\<close>; the flow is represented by
  the client configuration it was read from.
\<close>

definition from_client_secrets_file :: "string \<Rightarrow> world \<Rightarrow> (py_error + string) \<times> world" where
  "from_client_secrets_file p w =
     (let w' = record_effect (ReadFile p) w
      in case files w p of
           None \<Rightarrow> (Inl (FileNotFoundError (''[Errno 2] No such file or directory: '' @ p)), w')
         | Some content \<Rightarrow>
             (case client_secrets_error w content of
                Some msg \<Rightarrow> (Inl (ExternalError msg), w')
              | None \<Rightarrow> (Inr content, w')))"

text \<open>\<^verbatim>\<open>flow.run_local_server(port=0)\<close>: the interactive consent.\<close>

definition run_local_server :: "string \<Rightarrow> world \<Rightarrow> (py_error + credentials) \<times> world" where
  "run_local_server flow w =
     (let w' = record_effect RunLocalServer w
      in case consent w flow of
           Inl msg \<Rightarrow> (Inl (ExternalError msg), w')
         | Inr c \<Rightarrow> (Inr c, w'))"

text \<open>
  \<^verbatim>\<open>with open(path, 'w') as f: f.write(content)\<close>; the write is taken to succeed.
\<close>

definition write_file :: "string \<Rightarrow> string \<Rightarrow> world \<Rightarrow> world" where
  "write_file p content w = record_effect (WriteFile p content) (w\<lparr>files := (files w)(p \<mapsto> content)\<rparr>)"

text \<open>
  \<^verbatim>\<open>build('calendar', 'v3', credentials=creds)\<close>: the client library assembles the API
  client from files of its own (the discovery document it ships, a client certificate if
  one is configured). It touches no file of the server, and it may raise.
\<close>

definition build :: "credentials \<Rightarrow> world \<Rightarrow> (py_error + service) \<times> world" where
  "build creds w =
     (let w' = record_effect BuildClient w
      in case build_error w creds of
           Some msg \<Rightarrow> (Inl (ExternalError msg), w')
         | None \<Rightarrow> (Inr (Service creds), w'))"

text \<open>\<^verbatim>\<open>service.events().list(**params).execute()\<close>: the \<^verbatim>\<open>items\<close> of the answer, if any.\<close>

definition events_list :: "service \<Rightarrow> list_params \<Rightarrow> world \<Rightarrow> (py_error + calendar_event list option) \<times> world" where
  "events_list srv params w =
     (let w' = record_effect (EventsList params) w
      in case srv of Service creds \<Rightarrow>
           (case events_list_execute w creds params of
              Inl msg \<Rightarrow> (Inl (ExternalError msg), w')
            | Inr items \<Rightarrow> (Inr items, w')))"

text \<open>
  \<^verbatim>\<open>service.events().insert(calendarId=..., body=event).execute()\<close>: the \<^verbatim>\<open>htmlLink\<close> of the
  created event, if the answer has one.
\<close>

definition events_insert :: "service \<Rightarrow> string \<Rightarrow> event_body \<Rightarrow> world \<Rightarrow> (py_error + pyval option) \<times> world" where
  "events_insert srv cal body w =
     (let w' = record_effect (EventsInsert cal body) w
      in case srv of Service creds \<Rightarrow>
           (case events_insert_execute w creds cal body of
              Inl msg \<Rightarrow> (Inl (ExternalError msg), w')
            | Inr link \<Rightarrow> (Inr link, w')))"

section \<open>Credential resolution: \<^verbatim>\<open>get_calendar_service\<close>\<close>

text \<open>Python truthiness of \<^verbatim>\<open>os.environ.get(name)\<close>: set, and not the empty string.\<close>

definition truthy :: "string option \<Rightarrow> bool" where
  "truthy v = (case v of None \<Rightarrow> False | Some s \<Rightarrow> s \<noteq> [])"

definition CONFIGURATION_ERROR :: py_error where
  "CONFIGURATION_ERROR =
     FileNotFoundError ''credentials.json not found. Please add Google OAuth credentials.''"

text \<open>
  The body of \<^verbatim>\<open>if not creds or not creds.valid:\<close> -- the client-secrets file must
  exist, the interactive flow runs, the new credentials are saved to the token file.
\<close>

definition authenticate :: "world \<Rightarrow> (py_error + service) \<times> world" where
  "authenticate w =
     (case os_path_exists (CREDENTIALS_FILE w) w of
        (False, w1) \<Rightarrow> (Inl CONFIGURATION_ERROR, w1)
      | (True, w1) \<Rightarrow>
          (case from_client_secrets_file (CREDENTIALS_FILE w1) w1 of
             (Inl e, w2) \<Rightarrow> (Inl e, w2)
           | (Inr flow, w2) \<Rightarrow>
               (case run_local_server flow w2 of
                  (Inl e, w3) \<Rightarrow> (Inl e, w3)
                | (Inr creds, w3) \<Rightarrow>
                    build creds (write_file (TOKEN_FILE w3) (to_json w3 creds) w3))))"

text \<open>The \<^verbatim>\<open>else\<close> branch: ``Development mode: use local files''.\<close>

definition development_mode :: "world \<Rightarrow> (py_error + service) \<times> world" where
  "development_mode w =
     (case os_path_exists (TOKEN_FILE w) w of
        (False, w1) \<Rightarrow> authenticate w1
      | (True, w1) \<Rightarrow>
          (case from_authorized_user_file (TOKEN_FILE w1) w1 of
             (Inl e, w2) \<Rightarrow> (Inl e, w2)
           | (Inr creds, w2) \<Rightarrow>
               if \<not> valid creds then authenticate w2 else build creds w2))"

definition get_calendar_service :: "world \<Rightarrow> (py_error + service) \<times> world" where
  "get_calendar_service w =
     (let refresh_token = environ w ''GOOGLE_REFRESH_TOKEN'';
          client_id = environ w ''GOOGLE_CLIENT_ID'';
          client_secret = environ w ''GOOGLE_CLIENT_SECRET''
      in if truthy refresh_token \<and> truthy client_id \<and> truthy client_secret
         then (case (refresh_token, client_id, client_secret) of
                 (Some r, Some i, Some s) \<Rightarrow>
                   build \<lparr>token = None, refresh_token = r,
                          token_uri = ''https://oauth2.googleapis.com/token'',
                          client_id = i, client_secret = s, scopes = SCOPES,
                          expired = False\<rparr> w
               | _ \<Rightarrow> development_mode w)
         else development_mode w)"

section \<open>Calendar operations\<close>

definition str_pyval :: "pyval \<Rightarrow> string" where
  "str_pyval v =
     (case v of PNone \<Rightarrow> ''None'' | PBool b \<Rightarrow> (if b then ''True'' else ''False'')
      | PInt i \<Rightarrow> str_int i | PStr s \<Rightarrow> s)"

text \<open>
  The loop of \<^verbatim>\<open>list_events\<close>: one line per event, \<^verbatim>\<open>f"{start}: {event['summary']}"\<close>, where
  \<^verbatim>\<open>start = event['start'].get('dateTime', event['start'].get('date'))\<close>. A missing
  \<^verbatim>\<open>start\<close> or \<^verbatim>\<open>summary\<close> key raises \<^verbatim>\<open>KeyError\<close> at the first such event.
\<close>

fun format_events :: "calendar_event list \<Rightarrow> py_error + string list" where
  "format_events [] = Inr []"
| "format_events (event # events) =
     (case ev_start event of
        None \<Rightarrow> Inl (KeyError ''start'')
      | Some st \<Rightarrow>
          let start = (case st ''dateTime'' of
                         Some v \<Rightarrow> v
                       | None \<Rightarrow> (case st ''date'' of Some v \<Rightarrow> v | None \<Rightarrow> PNone))
          in (case ev_summary event of
                None \<Rightarrow> Inl (KeyError ''summary'')
              | Some sm \<Rightarrow>
                  (case format_events events of
                     Inl e \<Rightarrow> Inl e
                   | Inr result \<Rightarrow> Inr ((str_pyval start @ '': '' @ str_pyval sm) # result))))"

definition NO_EVENTS :: string where
  "NO_EVENTS = ''No upcoming events found.''"

definition list_events :: "pyval \<Rightarrow> world \<Rightarrow> (py_error + string) \<times> world" where
  "list_events days_ahead w =
     (case get_calendar_service w of
        (Inl e, w1) \<Rightarrow> (Inl e, w1)
      | (Inr srv, w1) \<Rightarrow>
          (case utcnow w1 of (t1, w2) \<Rightarrow>
             let now = isoformat t1 @ ''Z''
             in (case utcnow w2 of (t2, w3) \<Rightarrow>
                   (case timedelta_days days_ahead of
                      Inl e \<Rightarrow> (Inl e, w3)
                    | Inr td \<Rightarrow>
                        (case datetime_add t2 td of
                           Inl e \<Rightarrow> (Inl e, w3)
                         | Inr later_dt \<Rightarrow>
                             let later = isoformat later_dt @ ''Z''
                             in (case events_list srv
                                        \<lparr>calendarId = ''primary'', timeMin = now, timeMax = later,
                                         maxResults = 10, singleEvents = True,
                                         orderBy = ''startTime''\<rparr> w3 of
                                   (Inl e, w4) \<Rightarrow> (Inl e, w4)
                                 | (Inr items, w4) \<Rightarrow>
                                     let events = (case items of None \<Rightarrow> [] | Some xs \<Rightarrow> xs)
                                     in if events = [] then (Inr NO_EVENTS, w4)
                                        else (case format_events events of
                                                Inl e \<Rightarrow> (Inl e, w4)
                                              | Inr result \<Rightarrow>
                                                  (Inr (join [CHR 0x0A] result), w4))))))))"

definition PACIFIC :: string where
  "PACIFIC = ''America/Los_Angeles''"

definition create_event :: "pyval \<Rightarrow> pyval \<Rightarrow> pyval \<Rightarrow> world \<Rightarrow> (py_error + string) \<times> world" where
  "create_event summary start_time duration_minutes w =
     (case get_calendar_service w of
        (Inl e, w1) \<Rightarrow> (Inl e, w1)
      | (Inr srv, w1) \<Rightarrow>
          (case fromisoformat start_time of
             Inl e \<Rightarrow> (Inl e, w1)
           | Inr start_dt \<Rightarrow>
               (case timedelta_minutes duration_minutes of
                  Inl e \<Rightarrow> (Inl e, w1)
                | Inr td \<Rightarrow>
                    (case datetime_add start_dt td of
                       Inl e \<Rightarrow> (Inl e, w1)
                     | Inr end_dt \<Rightarrow>
                         let event =
                               (if tzinfo start_dt = None
                                then \<lparr>body_summary = summary,
                                      body_start = \<lparr>dateTime = isoformat start_dt,
                                                    timeZone = Some PACIFIC\<rparr>,
                                      body_end = \<lparr>dateTime = isoformat end_dt,
                                                  timeZone = Some PACIFIC\<rparr>\<rparr>
                                else \<lparr>body_summary = summary,
                                      body_start = \<lparr>dateTime = isoformat start_dt,
                                                    timeZone = None\<rparr>,
                                      body_end = \<lparr>dateTime = isoformat end_dt,
                                                  timeZone = None\<rparr>\<rparr>)
                         in (case events_insert srv ''primary'' event w1 of
                               (Inl e, w2) \<Rightarrow> (Inl e, w2)
                             | (Inr link, w2) \<Rightarrow>
                                 (Inr (''Event created: ''
                                        @ str_pyval (case link of None \<Rightarrow> PNone | Some v \<Rightarrow> v)),
                                  w2))))))"

section \<open>Tool dispatch: \<^verbatim>\<open>POST /tools/call\<close>\<close>

record tool_call_request =
  name :: string
  arguments :: "string \<rightharpoonup> pyval"

text \<open>
  \<^verbatim>\<open>str(e)\<close>: the message of the exception; for a \<^verbatim>\<open>KeyError\<close> the \<^verbatim>\<open>repr\<close> of the key, for
  an \<^verbatim>\<open>HTTPException\<close> the status and the detail, as the framework's \<^verbatim>\<open>__str__\<close> renders
  them (releases without that method give the empty string; nothing below depends on it).
\<close>

definition str_exception :: "py_error \<Rightarrow> string" where
  "str_exception e =
     (case e of
        KeyError k \<Rightarrow> [CHR 0x27] @ k @ [CHR 0x27]
      | TypeError m \<Rightarrow> m
      | ValueError m \<Rightarrow> m
      | OverflowError m \<Rightarrow> m
      | FileNotFoundError m \<Rightarrow> m
      | HTTPException st d \<Rightarrow> str_int (int st) @ '': '' @ d
      | ExternalError m \<Rightarrow> m)"

text \<open>The body of the \<^verbatim>\<open>try:\<close> block; the result is the \<^verbatim>\<open>text\<close> of the content envelope.\<close>

definition call_tool_try :: "tool_call_request \<Rightarrow> world \<Rightarrow> (py_error + string) \<times> world" where
  "call_tool_try request w =
     (if name request = ''list_events'' then
        let days_ahead = (case arguments request ''days_ahead'' of None \<Rightarrow> PInt 7 | Some v \<Rightarrow> v)
        in list_events days_ahead w
      else if name request = ''create_event'' then
        (case arguments request ''summary'' of
           None \<Rightarrow> (Inl (KeyError ''summary''), w)
         | Some summary \<Rightarrow>
             (case arguments request ''start_time'' of
                None \<Rightarrow> (Inl (KeyError ''start_time''), w)
              | Some start_time \<Rightarrow>
                  let duration_minutes =
                        (case arguments request ''duration_minutes'' of
                           None \<Rightarrow> PInt 60 | Some v \<Rightarrow> v)
                  in create_event summary start_time duration_minutes w))
      else (Inl (HTTPException 400 (''Unknown tool: '' @ name request)), w))"

text \<open>
  \<^verbatim>\<open>call_tool\<close>: the \<^verbatim>\<open>try\<close> block under \<^verbatim>\<open>except Exception as e: raise
  HTTPException(status_code=500, detail=str(e))\<close>. \<^verbatim>\<open>HTTPException\<close> is itself an
  \<^verbatim>\<open>Exception\<close>, so the handler catches it like any other.
\<close>

definition call_tool :: "tool_call_request \<Rightarrow> world \<Rightarrow> (py_error + string) \<times> world" where
  "call_tool request w =
     (case call_tool_try request w of
        (Inl e, w') \<Rightarrow> (Inl (HTTPException 500 (str_exception e)), w')
      | (Inr result, w') \<Rightarrow> (Inr result, w'))"

text \<open>The status of the HTTP response the framework sends for an outcome of the handler.\<close>

definition http_status :: "py_error + string \<Rightarrow> nat" where
  "http_status r =
     (case r of Inr _ \<Rightarrow> 200 | Inl (HTTPException st _) \<Rightarrow> st | Inl _ \<Rightarrow> 500)"

section \<open>Notions used to state the properties\<close>

text \<open>A datetime whose fields passed the constructor's checks.\<close>

definition valid_datetime :: "datetime \<Rightarrow> bool" where
  "valid_datetime dt \<longleftrightarrow>
     check_date_fields (year dt) (month dt) (day dt)
     \<and> check_time_fields (hour dt) (minute dt) (second dt) (microsecond dt)
     \<and> check_utcoffset (tzinfo dt)"

text \<open>The length of a timedelta in microseconds.\<close>

definition timedelta_micros :: "timedelta \<Rightarrow> int" where
  "timedelta_micros td = (days td * 86400 + seconds td) * 1000000 + microseconds td"

text \<open>
  The positions of \<^verbatim>\<open>datetime.min\<close> (0001-01-01T00:00:00) and \<^verbatim>\<open>datetime.max\<close>
  (9999-12-31T23:59:59.999999) on the time line of \<open>datetime_micros\<close>.
\<close>

definition MIN_MICROS :: int where "MIN_MICROS = 86400000000"
definition MAX_MICROS :: int where "MAX_MICROS = (MAXORDINAL + 1) * 86400000000 - 1"

text \<open>The effects a call performed: what it appended to the trace of the world it started in.\<close>

definition performed :: "world \<Rightarrow> 'a \<times> world \<Rightarrow> effect list" where
  "performed w r = drop (length (trace w)) (trace (snd r))"

text \<open>
  The width of a query's window in microseconds, read back from its \<open>timeMin\<close> and
  \<open>timeMax\<close> strings (each an ISO timestamp followed by \<open>Z\<close>).
\<close>

definition window_micros :: "list_params \<Rightarrow> int option" where
  "window_micros q =
     (case (fromisoformat (PStr (butlast (timeMin q))), fromisoformat (PStr (butlast (timeMax q)))) of
        (Inr a, Inr b) \<Rightarrow> Some (datetime_micros b - datetime_micros a)
      | _ \<Rightarrow> None)"

text \<open>An effect on the file at a given path: a test for it, a read or a write.\<close>

definition touches_file :: "string \<Rightarrow> effect \<Rightarrow> bool" where
  "touches_file p e =
     (case e of PathExists q \<Rightarrow> q = p | ReadFile q \<Rightarrow> q = p | WriteFile q _ \<Rightarrow> q = p
      | _ \<Rightarrow> False)"

text \<open>
  The last \<open>n\<close> decimal digits of a number, and a UTC offset of \<open>off\<close> microseconds as
  ISO 8601 writes it: sign, hours and minutes, then seconds and microseconds only when
  they are not zero. Both are written from the digits, independently of the formatting
  functions of the program.
\<close>

primrec decimal :: "nat \<Rightarrow> int \<Rightarrow> string" where
  "decimal 0 v = []"
| "decimal (Suc n) v = decimal n (v div 10) @ [char_of (48 + v mod 10)]"

definition offset_text :: "int \<Rightarrow> string" where
  "offset_text off =
     (if off < 0 then ''-'' else ''+'')
     @ decimal 2 (\<bar>off\<bar> div 3600000000) @ '':'' @ decimal 2 (\<bar>off\<bar> div 60000000 mod 60)
     @ (if \<bar>off\<bar> mod 60000000 = 0 then []
        else '':'' @ decimal 2 (\<bar>off\<bar> div 1000000 mod 60)
             @ (if \<bar>off\<bar> mod 1000000 = 0 then [] else ''.'' @ decimal 6 (\<bar>off\<bar> mod 1000000)))"

text \<open>The number of lines of a text: one more than its line feeds.\<close>

definition line_count :: "string \<Rightarrow> nat" where
  "line_count s = Suc (length (filter (\<lambda>c. c = CHR 0x0A) s))"

text \<open>The condition of the production branch of \<open>get_calendar_service\<close>.\<close>

definition env_credentials_available :: "world \<Rightarrow> bool" where
  "env_credentials_available w \<longleftrightarrow>
     truthy (environ w ''GOOGLE_REFRESH_TOKEN'') \<and> truthy (environ w ''GOOGLE_CLIENT_ID'')
     \<and> truthy (environ w ''GOOGLE_CLIENT_SECRET'')"

text \<open>All three variables are set in the environment, whatever their values.\<close>

definition env_credentials_present :: "world \<Rightarrow> bool" where
  "env_credentials_present w \<longleftrightarrow>
     environ w ''GOOGLE_REFRESH_TOKEN'' \<noteq> None \<and> environ w ''GOOGLE_CLIENT_ID'' \<noteq> None
     \<and> environ w ''GOOGLE_CLIENT_SECRET'' \<noteq> None"

text \<open>The token file exists, loads, and holds a valid credential.\<close>

definition usable_valid_token :: "world \<Rightarrow> bool" where
  "usable_valid_token w =
     (case files w (TOKEN_FILE w) of
        None \<Rightarrow> False
      | Some content \<Rightarrow>
          (case authorized_user_info w content of Inl _ \<Rightarrow> False | Inr c \<Rightarrow> valid c))"

text \<open>The token file is absent, or it loads and holds a credential that is not valid.\<close>

definition token_absent_or_invalid :: "world \<Rightarrow> bool" where
  "token_absent_or_invalid w =
     (case files w (TOKEN_FILE w) of
        None \<Rightarrow> True
      | Some content \<Rightarrow>
          (case authorized_user_info w content of Inl _ \<Rightarrow> False | Inr c \<Rightarrow> \<not> valid c))"

subsection \<open>A concrete world\<close>

text \<open>
  A deployment with the three variables set, a clock that advances by five microseconds
  between readings, a client library that builds the client, and a provider that lists
  three events and accepts insertions. The
  token loader refuses the content \<open>{}\<close> (no refresh token in it).
\<close>

definition example_clock :: "nat \<Rightarrow> datetime" where
  "example_clock n =
     \<lparr>year = 2024, month = 1, day = 1, hour = 0, minute = 0, second = 0,
      microsecond = 5 * int n, tzinfo = None\<rparr>"

definition example_credentials :: credentials where
  "example_credentials =
     \<lparr>token = Some ''ya29.token'', refresh_token = ''1//refresh'',
      token_uri = ''https://oauth2.googleapis.com/token'', client_id = ''client-id'',
      client_secret = ''client-secret'', scopes = SCOPES, expired = False\<rparr>"

definition example_events :: "calendar_event list" where
  "example_events =
     [\<lparr>ev_start = Some [''dateTime'' \<mapsto> PStr ''2024-01-01T09:00:00-08:00''],
       ev_summary = Some (PStr ''Standup'')\<rparr>,
      \<lparr>ev_start = Some [''date'' \<mapsto> PStr ''2024-01-02''],
       ev_summary = Some (PStr ''Holiday'')\<rparr>,
      \<lparr>ev_start = Some [''dateTime'' \<mapsto> PStr ''2024-01-03T14:30:00-08:00''],
       ev_summary = Some (PStr ''Review'')\<rparr>]"

definition example_world :: world where
  "example_world =
     \<lparr>environ = [''GOOGLE_REFRESH_TOKEN'' \<mapsto> ''1//refresh'', ''GOOGLE_CLIENT_ID'' \<mapsto> ''client-id'',
                 ''GOOGLE_CLIENT_SECRET'' \<mapsto> ''client-secret''],
      script_dir = ''/app'',
      files = Map.empty,
      utc_clock = example_clock,
      clock_reads = 0,
      authorized_user_info =
        (\<lambda>content. if content = ''{}'' then Inl ''missing fields refresh_token''
                    else Inr example_credentials),
      client_secrets_error = (\<lambda>_. None),
      consent = (\<lambda>_. Inr example_credentials),
      to_json = (\<lambda>_. ''{token}''),
      build_error = (\<lambda>_. None),
      events_list_execute = (\<lambda>_ _. Inr (Some example_events)),
      events_insert_execute =
        (\<lambda>_ _ _. Inr (Some (PStr ''https://www.google.com/calendar/event?eid=1''))),
      trace = []\<rparr>"

text \<open>The same deployment without the environment variables (development mode).\<close>

definition dev_world :: "(string \<rightharpoonup> string) \<Rightarrow> world" where
  "dev_world fs = example_world\<lparr>environ := Map.empty, files := fs\<rparr>"

text \<open>The same deployment with a provider that answers a query with eleven events.\<close>

definition eleven_events_world :: world where
  "eleven_events_world =
     example_world\<lparr>events_list_execute :=
       (\<lambda>_ _. Inr (Some (replicate 11 \<lparr>ev_start = Some [''date'' \<mapsto> PStr ''2024-01-02''],
                                        ev_summary = Some (PStr ''Holiday'')\<rparr>)))\<rparr>"
section \<open>Calendar arithmetic\<close>

lemma year_div_cycles:
  fixes a b c d :: int
  assumes "0 \<le> b" "b \<le> 3" "0 \<le> c" "c \<le> 24" "0 \<le> d" "d \<le> 3"
  shows "(a * 400 + b * 100 + c * 4 + d) div 4 = a * 100 + b * 25 + c"
    and "(a * 400 + b * 100 + c * 4 + d) div 100 = a * 4 + b"
    and "(a * 400 + b * 100 + c * 4 + d) div 400 = a"
    and "(a * 400 + b * 100 + c * 4 + d) mod 4 = d"
    and "(a * 400 + b * 100 + c * 4 + d) mod 100 = c * 4 + d"
    and "(a * 400 + b * 100 + c * 4 + d) mod 400 = b * 100 + c * 4 + d"
proof -
  show "(a * 400 + b * 100 + c * 4 + d) div 4 = a * 100 + b * 25 + c"
    by (rule int_div_pos_eq [where r = d]) (use assms in auto)
  show "(a * 400 + b * 100 + c * 4 + d) div 100 = a * 4 + b"
    by (rule int_div_pos_eq [where r = "c * 4 + d"]) (use assms in auto)
  show "(a * 400 + b * 100 + c * 4 + d) div 400 = a"
    by (rule int_div_pos_eq [where r = "b * 100 + c * 4 + d"]) (use assms in auto)
  show "(a * 400 + b * 100 + c * 4 + d) mod 4 = d"
    by (rule int_mod_pos_eq [where q = "a * 100 + b * 25 + c"]) (use assms in auto)
  show "(a * 400 + b * 100 + c * 4 + d) mod 100 = c * 4 + d"
    by (rule int_mod_pos_eq [where q = "a * 4 + b"]) (use assms in auto)
  show "(a * 400 + b * 100 + c * 4 + d) mod 400 = b * 100 + c * 4 + d"
    by (rule int_mod_pos_eq [where q = a]) (use assms in auto)
qed

lemma days_before_year_cycles:
  assumes "0 \<le> b" "b \<le> 3" "0 \<le> c" "c \<le> 24" "0 \<le> d" "d \<le> 3"
  shows "days_before_year (a * 400 + 1 + b * 100 + c * 4 + d)
           = 146097 * a + 36524 * b + 1461 * c + 365 * d"
proof -
  have eq: "a * 400 + 1 + b * 100 + c * 4 + d - 1 = a * 400 + b * 100 + c * 4 + d"
    by simp
  show ?thesis
    unfolding days_before_year_def Let_def eq year_div_cycles [OF assms]
    by simp
qed

lemma is_leap_cycles:
  assumes "0 \<le> b" "b \<le> 3" "0 \<le> c" "c \<le> 24" "0 \<le> d" "d \<le> 3"
  shows "is_leap (a * 400 + 1 + b * 100 + c * 4 + d) \<longleftrightarrow> d = 3 \<and> (c \<noteq> 24 \<or> b = 3)"
proof (cases "d = 3")
  case False
  have eq: "a * 400 + 1 + b * 100 + c * 4 + d = a * 400 + b * 100 + c * 4 + (d + 1)"
    by simp
  have "(a * 400 + b * 100 + c * 4 + (d + 1)) mod 4 = d + 1"
    by (rule year_div_cycles) (use assms False in auto)
  then show ?thesis
    using False assms by (simp add: is_leap_def eq)
next
  case True
  show ?thesis
  proof (cases "c = 24")
    case c24: True
    show ?thesis
    proof (cases "b = 3")
      case b3: True
      have "a * 400 + 1 + b * 100 + c * 4 + d = (a + 1) * 400"
        using True c24 b3 by simp
      then show ?thesis
        using True c24 b3 by (simp add: is_leap_def)
    next
      case False
      have eq: "a * 400 + 1 + b * 100 + c * 4 + d = a * 400 + (b + 1) * 100 + 0 * 4 + 0"
        using True c24 by simp
      have m4: "(a * 400 + (b + 1) * 100 + 0 * 4 + 0) mod 4 = 0"
        and m100: "(a * 400 + (b + 1) * 100 + 0 * 4 + 0) mod 100 = 0 * 4 + 0"
        and m400: "(a * 400 + (b + 1) * 100 + 0 * 4 + 0) mod 400 = (b + 1) * 100 + 0 * 4 + 0"
        by (rule year_div_cycles; use assms False in auto)+
      show ?thesis
        unfolding is_leap_def eq m4 m100 m400 using True c24 False assms by simp
    qed
  next
    case False
    have eq: "a * 400 + 1 + b * 100 + c * 4 + d = a * 400 + b * 100 + (c + 1) * 4 + 0"
      using True by simp
    have m4: "(a * 400 + b * 100 + (c + 1) * 4 + 0) mod 4 = 0"
      and m100: "(a * 400 + b * 100 + (c + 1) * 4 + 0) mod 100 = (c + 1) * 4 + 0"
      by (rule year_div_cycles; use assms False in auto)+
    show ?thesis
      unfolding is_leap_def eq m4 m100 using True False assms by simp
  qed
qed

lemma month_table_step:
  assumes "2 \<le> m" "m \<le> 12"
  shows "DAYS_BEFORE_MONTH m + (if m > 2 \<and> l then 1 else 0)
           - (DAYS_IN_MONTH (m - 1) + (if m - 1 = 2 \<and> l then 1 else 0))
         = DAYS_BEFORE_MONTH (m - 1) + (if m - 1 > 2 \<and> l then 1 else 0)"
proof -
  from assms have "m = 2 \<or> m = 3 \<or> m = 4 \<or> m = 5 \<or> m = 6 \<or> m = 7 \<or> m = 8 \<or> m = 9
      \<or> m = 10 \<or> m = 11 \<or> m = 12"
    by arith
  then show ?thesis
    by (elim disjE) (simp_all add: DAYS_BEFORE_MONTH_def DAYS_IN_MONTH_def)
qed

lemma month_estimate:
  fixes r :: int and l :: bool
  assumes "0 \<le> r" "r < 365"
  defines "m \<equiv> (r + 50) div 32"
  defines "P \<equiv> DAYS_BEFORE_MONTH m + (if m > 2 \<and> l then 1 else 0)"
  shows "1 \<le> m" "m \<le> 12"
    and "P > r \<Longrightarrow> 2 \<le> m \<and> r < P \<and> P - (DAYS_IN_MONTH (m - 1) + (if m - 1 = 2 \<and> l then 1 else 0)) \<le> r"
    and "\<not> P > r \<Longrightarrow> r < P + (DAYS_IN_MONTH m + (if m = 2 \<and> l then 1 else 0))"
proof -
  have lo: "m * 32 \<le> r + 50" and hi: "r + 50 < m * 32 + 32"
    unfolding m_def by linarith+
  show m1: "1 \<le> m" and m12: "m \<le> 12"
    using assms(1,2) lo hi by linarith+
  then have cases: "m = 1 \<or> m = 2 \<or> m = 3 \<or> m = 4 \<or> m = 5 \<or> m = 6 \<or> m = 7 \<or> m = 8 \<or> m = 9
      \<or> m = 10 \<or> m = 11 \<or> m = 12"
    by arith
  show "P > r \<Longrightarrow> 2 \<le> m \<and> r < P \<and> P - (DAYS_IN_MONTH (m - 1) + (if m - 1 = 2 \<and> l then 1 else 0)) \<le> r"
    using cases lo hi assms(1,2) unfolding P_def
    by (elim disjE) (simp_all add: DAYS_BEFORE_MONTH_def DAYS_IN_MONTH_def split: if_splits)
  show "\<not> P > r \<Longrightarrow> r < P + (DAYS_IN_MONTH m + (if m = 2 \<and> l then 1 else 0))"
    using cases lo hi assms(1,2) unfolding P_def
    by (elim disjE) (simp_all add: DAYS_BEFORE_MONTH_def DAYS_IN_MONTH_def split: if_splits)
qed

lemma ord2ymd_props:
  assumes "1 \<le> n"
  shows "\<exists>y m d. ord2ymd n = (y, m, d) \<and> ymd2ord y m d = n
           \<and> 1 \<le> m \<and> m \<le> 12 \<and> 1 \<le> d \<and> d \<le> days_in_month y m
           \<and> 1 \<le> y \<and> (n \<le> MAXORDINAL \<longrightarrow> y \<le> 9999)"
proof -
  define n0 where "n0 = n - 1"
  define a where "a = n0 div 146097"
  define r1 where "r1 = n0 mod 146097"
  define b where "b = r1 div 36524"
  define r2 where "r2 = r1 mod 36524"
  define c where "c = r2 div 1461"
  define r3 where "r3 = r2 mod 1461"
  define d where "d = r3 div 365"
  define r4 where "r4 = r3 mod 365"
  define y where "y = a * 400 + 1 + b * 100 + c * 4 + d"
  have n0: "n0 = 146097 * a + r1" and r1: "0 \<le> r1" "r1 < 146097"
    by (simp_all add: a_def r1_def)
  have r1_eq: "r1 = 36524 * b + r2" and r2: "0 \<le> r2" "r2 < 36524"
    by (simp_all add: b_def r2_def)
  have r2_eq: "r2 = 1461 * c + r3" and r3: "0 \<le> r3" "r3 < 1461"
    by (simp_all add: c_def r3_def)
  have r3_eq: "r3 = 365 * d + r4" and r4: "0 \<le> r4" "r4 < 365"
    by (simp_all add: d_def r4_def)
  have a: "0 \<le> a" using assms n0 r1 by (simp add: n0_def a_def)
  have b: "0 \<le> b" "b \<le> 4" using r1 r1_eq r2 by linarith+
  have c: "0 \<le> c" "c \<le> 24" using r2 r2_eq r3 by linarith+
  have d: "0 \<le> d" "d \<le> 4" using r3 r3_eq r4 by linarith+
  have n: "146097 * a + 36524 * b + 1461 * c + 365 * d + r4 + 1 = n"
    using n0 r1_eq r2_eq r3_eq by (simp add: n0_def)
  define l where "l \<longleftrightarrow> d = 3 \<and> (c \<noteq> 24 \<or> b = 3)"
  define m where "m = (r4 + 50) div 32"
  define P where "P = DAYS_BEFORE_MONTH m + (if m > 2 \<and> l then 1 else 0)"
  define Q where "Q = DAYS_IN_MONTH (m - 1) + (if m - 1 = 2 \<and> l then 1 else 0)"
  have unfold: "ord2ymd n =
     (if d = 4 \<or> b = 4 then (y - 1, 12, 31)
      else if P > r4 then (y, m - 1, r4 - (P - Q) + 1) else (y, m, r4 - P + 1))"
    unfolding ord2ymd_def DI400Y_def DI100Y_def DI4Y_def
      P_def Q_def m_def l_def y_def r4_def d_def r3_def c_def r2_def b_def r1_def a_def n0_def
    by (simp only: Let_def)
  show ?thesis
  proof (cases "b = 4")
    case True
    then have "r2 = 0" using r1 r1_eq r2 by linarith
    then have z: "c = 0" "d = 0" "r4 = 0"
      by (simp_all add: c_def d_def r3_def r4_def)
    have yy: "y - 1 = a * 400 + 1 + 3 * 100 + 24 * 4 + 3"
      using True z by (simp add: y_def)
    have dby: "days_before_year (y - 1) = 146097 * a + 36524 * 3 + 1461 * 24 + 365 * 3"
      unfolding yy by (rule days_before_year_cycles) simp_all
    have leap: "is_leap (y - 1)"
      unfolding yy by (subst is_leap_cycles) simp_all
    have res: "ord2ymd n = (y - 1, 12, 31)"
      using True by (simp add: unfold)
    have ord: "ymd2ord (y - 1) 12 31 = n"
      using True z n dby leap
      by (simp add: ymd2ord_def days_before_month_def DAYS_BEFORE_MONTH_def)
    have ylo: "1 \<le> y - 1" using a yy by simp
    have yhi: "n \<le> MAXORDINAL \<longrightarrow> y - 1 \<le> 9999"
      using n True z yy by (auto simp: MAXORDINAL_def)
    show ?thesis
      using res ord ylo yhi by (simp add: days_in_month_def DAYS_IN_MONTH_def)
  next
    case b4: False
    then have b3: "b \<le> 3" using b by simp
    show ?thesis
    proof (cases "d = 4")
      case True
      then have r40: "r4 = 0" using r3 r3_eq r4 by linarith
      have c23: "c \<noteq> 24" using True r2 r2_eq r3_eq r4 by linarith
      have yy: "y - 1 = a * 400 + 1 + b * 100 + c * 4 + 3"
        using True by (simp add: y_def)
      have dby: "days_before_year (y - 1) = 146097 * a + 36524 * b + 1461 * c + 365 * 3"
        unfolding yy by (rule days_before_year_cycles) (use b b3 c in simp_all)
      have leap: "is_leap (y - 1)"
        unfolding yy by (subst is_leap_cycles) (use b b3 c c23 in simp_all)
      have res: "ord2ymd n = (y - 1, 12, 31)"
        using True by (simp add: unfold)
      have ord: "ymd2ord (y - 1) 12 31 = n"
        using True r40 n dby leap
        by (simp add: ymd2ord_def days_before_month_def DAYS_BEFORE_MONTH_def)
      have ylo: "1 \<le> y - 1" using a b c yy by simp
      have yhi: "n \<le> MAXORDINAL \<longrightarrow> y - 1 \<le> 9999"
        using n True r40 yy a b b3 c c23 r4 unfolding MAXORDINAL_def by arith
      show ?thesis
        using res ord ylo yhi by (simp add: days_in_month_def DAYS_IN_MONTH_def)
    next
      case False
      then have d3: "d \<le> 3" using d by simp
      have dby: "days_before_year y = 146097 * a + 36524 * b + 1461 * c + 365 * d"
        unfolding y_def by (rule days_before_year_cycles) (use b b3 c d d3 in simp_all)
      have leap: "is_leap y \<longleftrightarrow> l"
        unfolding y_def l_def by (rule is_leap_cycles) (use b b3 c d d3 in simp_all)
      have m: "1 \<le> m" "m \<le> 12"
        unfolding m_def by (rule month_estimate [OF r4])+
      have dbm: "days_before_month y k = DAYS_BEFORE_MONTH k + (if k > 2 \<and> l then 1 else 0)" for k
        by (simp add: days_before_month_def leap)
      have dim: "days_in_month y k = DAYS_IN_MONTH k + (if k = 2 \<and> l then 1 else 0)" for k
        by (simp add: days_in_month_def leap DAYS_IN_MONTH_def)
      have ylo: "1 \<le> y" using a b c d by (simp add: y_def)
      have yhi: "n \<le> MAXORDINAL \<longrightarrow> y \<le> 9999"
        using n a b b3 c d d3 r4 unfolding MAXORDINAL_def y_def by arith
      show ?thesis
      proof (cases "P > r4")
        case True
        from month_estimate(3) [OF r4, of l] True
        have m2: "2 \<le> m" and up: "r4 < P" and lo: "P - Q \<le> r4"
          unfolding P_def Q_def m_def by simp_all
        have PQ: "P - Q = days_before_month y (m - 1)"
          unfolding P_def Q_def dbm by (rule month_table_step [OF m2 m(2)])
        then have res: "ord2ymd n = (y, m - 1, r4 - days_before_month y (m - 1) + 1)"
          using True b4 False by (simp add: unfold)
        have ord: "ymd2ord y (m - 1) (r4 - days_before_month y (m - 1) + 1) = n"
          using n dby by (simp add: ymd2ord_def)
        have day: "1 \<le> r4 - days_before_month y (m - 1) + 1"
            "r4 - days_before_month y (m - 1) + 1 \<le> days_in_month y (m - 1)"
          using up lo PQ unfolding dim by (simp_all add: Q_def)
        show ?thesis
          using res ord day m m2 ylo yhi by simp
      next
        case ge: False
        from month_estimate(4) [OF r4, of l] ge
        have up: "r4 < P + days_in_month y m"
          unfolding P_def m_def dim by simp
        have Pm: "P = days_before_month y m"
          unfolding P_def dbm by simp
        then have res: "ord2ymd n = (y, m, r4 - days_before_month y m + 1)"
          using ge b4 False by (simp add: unfold)
        have ord: "ymd2ord y m (r4 - days_before_month y m + 1) = n"
          using n dby by (simp add: ymd2ord_def)
        have day: "1 \<le> r4 - days_before_month y m + 1"
            "r4 - days_before_month y m + 1 \<le> days_in_month y m"
          using up ge Pm by simp_all
        show ?thesis
          using res ord day m ylo yhi by simp
      qed
    qed
  qed
qed


lemma new_timedelta_Inr:
  assumes "new_timedelta d s us = Inr td"
  shows "timedelta_micros td = (d * 86400 + s) * 1000000 + us"
    and "0 \<le> seconds td" "seconds td < 86400"
    and "0 \<le> microseconds td" "microseconds td < 1000000"
    and "days td = (d * 86400 + s + us div 1000000) div 86400"
    and "\<bar>days td\<bar> \<le> 999999999"
proof -
  define s1 where "s1 = s + us div 1000000"
  from assms have td: "td = \<lparr>days = d + s1 div 86400, seconds = s1 mod 86400,
      microseconds = us mod 1000000\<rparr>" and small: "\<bar>d + s1 div 86400\<bar> \<le> 999999999"
    by (auto simp: new_timedelta_def Let_def s1_def split: if_splits)
  have "(d * 86400 + s) * 1000000 + us
      = (d * 86400 + (s1 - us div 1000000)) * 1000000 + (1000000 * (us div 1000000) + us mod 1000000)"
    by (simp add: s1_def)
  also have "\<dots> = (d * 86400 + s1) * 1000000 + us mod 1000000"
    by (simp add: algebra_simps)
  also have "s1 = 86400 * (s1 div 86400) + s1 mod 86400"
    by simp
  finally show "timedelta_micros td = (d * 86400 + s) * 1000000 + us"
    by (simp add: td timedelta_micros_def algebra_simps)
  show "0 \<le> seconds td" "seconds td < 86400" "0 \<le> microseconds td" "microseconds td < 1000000"
    by (simp_all add: td)
  show "days td = (d * 86400 + s + us div 1000000) div 86400"
    by (simp add: td s1_def add.assoc)
  show "\<bar>days td\<bar> \<le> 999999999"
    using small by (simp add: td)
qed

lemma new_timedelta_Inl:
  assumes "new_timedelta d s us = Inl e"
  shows "\<bar>(d * 86400 + s + us div 1000000) div 86400\<bar> > 999999999" and "\<exists>m. e = OverflowError m"
  using assms by (auto simp: new_timedelta_def Let_def add.assoc split: if_splits)

lemma hms_recompose: "(s::int) div 3600 * 3600 + s mod 3600 div 60 * 60 + s mod 3600 mod 60 = s"
  by (metis add.assoc div_mult_mod_eq)

lemma datetime_add_Inr:
  assumes "datetime_add dt td = Inr dt'"
  shows "datetime_micros dt' = datetime_micros dt + timedelta_micros td"
    and "tzinfo dt' = tzinfo dt"
    and "check_date_fields (year dt') (month dt') (day dt')"
    and "check_time_fields (hour dt') (minute dt') (second dt') (microsecond dt')"
proof -
  let ?ord = "ymd2ord (year dt) (month dt) (day dt)"
  let ?s = "hour dt * 3600 + minute dt * 60 + second dt"
  from assms obtain delta where
    delta: "new_timedelta (?ord + days td) (?s + seconds td) (microsecond dt + microseconds td) = Inr delta"
    and range: "0 < days delta" "days delta \<le> MAXORDINAL"
    and dt': "dt' = (case ord2ymd (days delta) of (y, m, d) \<Rightarrow>
                  \<lparr>year = y, month = m, day = d,
                   hour = seconds delta div 3600,
                   minute = (seconds delta mod 3600) div 60,
                   second = (seconds delta mod 3600) mod 60,
                   microsecond = microseconds delta,
                   tzinfo = tzinfo dt\<rparr>)"
    by (auto simp: datetime_add_def split: sum.splits if_splits prod.splits)
  from range have "1 \<le> days delta" by simp
  from ord2ymd_props [OF this] range(2) obtain y m d where
    o: "ord2ymd (days delta) = (y, m, d)" "ymd2ord y m d = days delta"
      "1 \<le> m" "m \<le> 12" "1 \<le> d" "d \<le> days_in_month y m" "1 \<le> y" "y \<le> 9999"
    by blast
  note nt = new_timedelta_Inr [OF delta]
  have "datetime_micros dt' = (days delta * 86400 + seconds delta) * 1000000 + microseconds delta"
    using o(2) hms_recompose [of "seconds delta"]
    by (simp add: dt' o(1) datetime_micros_def)
  also have "\<dots> = datetime_micros dt + timedelta_micros td"
    using nt(1) by (simp add: timedelta_micros_def datetime_micros_def algebra_simps)
  finally show "datetime_micros dt' = datetime_micros dt + timedelta_micros td" .
  show "tzinfo dt' = tzinfo dt"
    by (simp add: dt' o(1))
  show "check_date_fields (year dt') (month dt') (day dt')"
    using o by (simp add: dt' check_date_fields_def MINYEAR_def MAXYEAR_def)
  have f: "hour dt' = seconds delta div 3600" "minute dt' = seconds delta mod 3600 div 60"
    "second dt' = seconds delta mod 3600 mod 60" "microsecond dt' = microseconds delta"
    by (simp_all add: dt' o(1))
  have h: "0 \<le> seconds delta div 3600" "seconds delta div 3600 \<le> 23"
    using nt(2,3) by simp_all
  have r: "0 \<le> seconds delta mod 3600" "seconds delta mod 3600 < 3600"
    by simp_all
  have mi: "0 \<le> seconds delta mod 3600 div 60" "seconds delta mod 3600 div 60 \<le> 59"
    using r by simp_all
  have "0 \<le> seconds delta mod 3600 mod 60" "seconds delta mod 3600 mod 60 < 60"
    by simp_all
  then have se: "0 \<le> seconds delta mod 3600 mod 60" "seconds delta mod 3600 mod 60 \<le> 59"
    by linarith+
  have us: "0 \<le> microseconds delta" "microseconds delta \<le> 999999"
    using nt(4,5) by linarith+
  show "check_time_fields (hour dt') (minute dt') (second dt') (microsecond dt')"
    unfolding check_time_fields_def f using h mi se us by blast
qed

lemma days_before_year_bounds:
  assumes "1 \<le> y" "y \<le> 9999"
  shows "0 \<le> days_before_year y" "days_before_year y \<le> 3669266"
proof -
  define z where "z = y - 1"
  have z: "0 \<le> z" "z \<le> 9998" using assms by (simp_all add: z_def)
  have a: "z div 100 \<le> z div 4"
    using z by (intro zdiv_mono2) simp_all
  have "z = 4 * (z div 4) + z mod 4" "0 \<le> z mod 4" "z = 400 * (z div 400) + z mod 400"
    "0 \<le> z mod 400" "z mod 400 < 400" "z = 100 * (z div 100) + z mod 100" "z mod 100 < 100"
    by simp_all
  with z have b: "0 \<le> z div 400" "z div 4 \<le> z" "z div 400 \<le> z" "0 \<le> z div 100"
    by linarith+
  show "0 \<le> days_before_year y" "days_before_year y \<le> 3669266"
    using a b z unfolding days_before_year_def Let_def z_def [symmetric] by linarith+
qed

lemma ymd2ord_bounds:
  assumes "check_date_fields y m d"
  shows "1 \<le> ymd2ord y m d" "ymd2ord y m d \<le> 3700000"
proof -
  from assms have y: "1 \<le> y" "y \<le> 9999" and m: "1 \<le> m" "m \<le> 12"
    and d: "1 \<le> d" "d \<le> days_in_month y m"
    by (simp_all add: check_date_fields_def MINYEAR_def MAXYEAR_def)
  have dim: "days_in_month y m \<le> 31"
    by (simp add: days_in_month_def DAYS_IN_MONTH_def)
  have dbm: "0 \<le> days_before_month y m" "days_before_month y m \<le> 335"
    by (simp_all add: days_before_month_def DAYS_BEFORE_MONTH_def)
  show "1 \<le> ymd2ord y m d" "ymd2ord y m d \<le> 3700000"
    using days_before_year_bounds [OF y] dim dbm d unfolding ymd2ord_def by linarith+
qed

lemma timedelta_minutes_PInt:
  "timedelta_minutes (PInt d) =
     (if \<bar>60 * d div 86400\<bar> > 999999999
      then Inl (OverflowError (''days='' @ str_int (60 * d div 86400) @ ''; must have magnitude <= 999999999''))
      else Inr \<lparr>days = 60 * d div 86400, seconds = 60 * d mod 86400, microseconds = 0\<rparr>)"
  by (simp add: timedelta_minutes_def new_timedelta_def)

lemma micros_div_day:
  fixes x us :: int
  shows "(x * 1000000 + us) div 86400000000 = (x + us div 1000000) div 86400"
proof -
  have "(x * 1000000 + us) div 86400000000 = (x * 1000000 + us) div (1000000 * 86400)"
    by simp
  also have "\<dots> = ((x * 1000000 + us) div 1000000) div 86400"
    by (rule zdiv_zmult2_eq) simp
  also have "(x * 1000000 + us) div 1000000 = x + us div 1000000"
    by simp
  finally show ?thesis .
qed

lemma in_range_iff:
  fixes t :: int
  shows "MIN_MICROS \<le> t \<and> t \<le> MAX_MICROS \<longleftrightarrow>
         0 < t div 86400000000 \<and> t div 86400000000 \<le> MAXORDINAL"
proof -
  define D where "D = t div 86400000000"
  define R where "R = t mod 86400000000"
  have t: "t = 86400000000 * D + R" and R: "0 \<le> R" "R < 86400000000"
    by (simp_all add: D_def R_def)
  show ?thesis
    unfolding D_def [symmetric] MIN_MICROS_def MAX_MICROS_def MAXORDINAL_def
    using t R by auto
qed

lemma datetime_add_days_delta:
  assumes "new_timedelta (ymd2ord (year dt) (month dt) (day dt) + days td)
             (hour dt * 3600 + minute dt * 60 + second dt + seconds td)
             (microsecond dt + microseconds td) = r"
  shows "(case r of Inl e \<Rightarrow> \<bar>(datetime_micros dt + timedelta_micros td) div 86400000000\<bar> > 999999999
                      \<and> (\<exists>m. e = OverflowError m)
          | Inr delta \<Rightarrow> days delta = (datetime_micros dt + timedelta_micros td) div 86400000000)"
proof -
  have eq: "datetime_micros dt + timedelta_micros td
      = ((ymd2ord (year dt) (month dt) (day dt) + days td) * 86400
          + (hour dt * 3600 + minute dt * 60 + second dt + seconds td)) * 1000000
        + (microsecond dt + microseconds td)"
    by (simp add: datetime_micros_def timedelta_micros_def algebra_simps)
  let ?A = "ymd2ord (year dt) (month dt) (day dt) + days td"
  let ?B = "hour dt * 3600 + minute dt * 60 + second dt + seconds td"
  let ?C = "microsecond dt + microseconds td"
  have dv: "(datetime_micros dt + timedelta_micros td) div 86400000000
      = (?A * 86400 + ?B + ?C div 1000000) div 86400"
    unfolding eq by (rule micros_div_day)
  show ?thesis
  proof (cases r)
    case (Inl e)
    with assms have "new_timedelta ?A ?B ?C = Inl e" by simp
    from new_timedelta_Inl [OF this] show ?thesis
      unfolding dv Inl by simp
  next
    case (Inr delta)
    with assms have "new_timedelta ?A ?B ?C = Inr delta" by simp
    from new_timedelta_Inr(6) [OF this] show ?thesis
      unfolding dv Inr by simp
  qed
qed

lemma datetime_add_cases:
  fixes dt :: datetime and td :: timedelta
  defines "t \<equiv> datetime_micros dt + timedelta_micros td"
  shows "MIN_MICROS \<le> t \<and> t \<le> MAX_MICROS \<Longrightarrow> \<exists>dt'. datetime_add dt td = Inr dt'"
    and "\<not> (MIN_MICROS \<le> t \<and> t \<le> MAX_MICROS) \<Longrightarrow> \<exists>m. datetime_add dt td = Inl (OverflowError m)"
proof -
  define r where "r = new_timedelta (ymd2ord (year dt) (month dt) (day dt) + days td)
             (hour dt * 3600 + minute dt * 60 + second dt + seconds td)
             (microsecond dt + microseconds td)"
  note dd = datetime_add_days_delta [OF r_def [symmetric], folded t_def]
  have add: "datetime_add dt td =
     (case r of Inl e \<Rightarrow> Inl e
      | Inr delta \<Rightarrow>
          if 0 < days delta \<and> days delta \<le> MAXORDINAL
          then (case ord2ymd (days delta) of (y, m, d) \<Rightarrow>
                  Inr \<lparr>year = y, month = m, day = d,
                       hour = seconds delta div 3600,
                       minute = (seconds delta mod 3600) div 60,
                       second = (seconds delta mod 3600) mod 60,
                       microsecond = microseconds delta,
                       tzinfo = tzinfo dt\<rparr>)
          else Inl (OverflowError ''date value out of range''))"
    by (simp add: datetime_add_def r_def)
  show "\<exists>dt'. datetime_add dt td = Inr dt'" if "MIN_MICROS \<le> t \<and> t \<le> MAX_MICROS"
  proof -
    from that have D: "0 < t div 86400000000" "t div 86400000000 \<le> MAXORDINAL"
      by (simp_all add: in_range_iff)
    show ?thesis
    proof (cases r)
      case (Inl e)
      with dd D show ?thesis by (simp add: MAXORDINAL_def)
    next
      case (Inr delta)
      with dd D show ?thesis by (simp add: add split: prod.splits)
    qed
  qed
  show "\<exists>m. datetime_add dt td = Inl (OverflowError m)" if "\<not> (MIN_MICROS \<le> t \<and> t \<le> MAX_MICROS)"
  proof (cases r)
    case (Inl e)
    with dd show ?thesis by (auto simp: add)
  next
    case (Inr delta)
    with dd that show ?thesis unfolding in_range_iff by (auto simp: add)
  qed
qed

lemma timedelta_minutes_cases:
  shows "\<bar>60 * d div 86400\<bar> \<le> 999999999 \<Longrightarrow>
           \<exists>td. timedelta_minutes (PInt d) = Inr td \<and> timedelta_micros td = 60000000 * d"
    and "\<not> \<bar>60 * d div 86400\<bar> \<le> 999999999 \<Longrightarrow>
           \<exists>m. timedelta_minutes (PInt d) = Inl (OverflowError m)"
proof -
  define q where "q = 60 * d div 86400"
  define r where "r = 60 * d mod 86400"
  have qr: "q * 86400 + r = 60 * d"
    unfolding q_def r_def by (rule div_mult_mod_eq)
  have td: "timedelta_minutes (PInt d) =
     (if \<bar>q\<bar> > 999999999
      then Inl (OverflowError (''days='' @ str_int q @ ''; must have magnitude <= 999999999''))
      else Inr \<lparr>days = q, seconds = r, microseconds = 0\<rparr>)"
    unfolding q_def r_def by (rule timedelta_minutes_PInt)
  show "\<exists>td. timedelta_minutes (PInt d) = Inr td \<and> timedelta_micros td = 60000000 * d"
    if "\<bar>60 * d div 86400\<bar> \<le> 999999999"
    using that qr unfolding q_def [symmetric] by (simp add: td timedelta_micros_def)
  show "\<exists>m. timedelta_minutes (PInt d) = Inl (OverflowError m)"
    if "\<not> \<bar>60 * d div 86400\<bar> \<le> 999999999"
    using that unfolding q_def [symmetric] by (simp add: td)
qed

lemma datetime_micros_bounds:
  assumes "valid_datetime dt"
  shows "86400000000 \<le> datetime_micros dt" "datetime_micros dt < 3700001 * 86400000000"
proof -
  from assms have o: "1 \<le> ymd2ord (year dt) (month dt) (day dt)"
      "ymd2ord (year dt) (month dt) (day dt) \<le> 3700000"
    using ymd2ord_bounds by (simp_all add: valid_datetime_def)
  from assms have "0 \<le> hour dt" "hour dt \<le> 23" "0 \<le> minute dt" "minute dt \<le> 59"
      "0 \<le> second dt" "second dt \<le> 59" "0 \<le> microsecond dt" "microsecond dt \<le> 999999"
    by (simp_all add: valid_datetime_def check_time_fields_def)
  with o show "86400000000 \<le> datetime_micros dt" "datetime_micros dt < 3700001 * 86400000000"
    unfolding datetime_micros_def by (simp_all add: algebra_simps)
qed

lemma in_range_minutes_small:
  assumes "valid_datetime dt"
    and "MIN_MICROS \<le> datetime_micros dt + 60000000 * d"
    and "datetime_micros dt + 60000000 * d \<le> MAX_MICROS"
  shows "\<bar>60 * d div 86400\<bar> \<le> 999999999"
proof -
  note b = datetime_micros_bounds [OF assms(1)]
  have lo: "- 3700001 * 86400 \<le> 60 * d"
    using b assms(2) unfolding MIN_MICROS_def by simp
  have hi: "60 * d \<le> 3652060 * 86400"
    using b assms(3) unfolding MAX_MICROS_def MAXORDINAL_def by simp
  define q where "q = 60 * d div 86400"
  define r where "r = 60 * d mod 86400"
  have "q * 86400 + r = 60 * d"
    unfolding q_def r_def by (rule div_mult_mod_eq)
  moreover have "0 \<le> r" "r < 86400"
    unfolding r_def by simp_all
  ultimately have "q * 86400 + r = 60 * d" "0 \<le> r" "r < 86400" .
  with lo hi have "- 3700002 \<le> q" "q \<le> 3652060"
    by linarith+
  then show ?thesis
    unfolding q_def by linarith
qed

section \<open>Tool dispatch: properties\<close>

text \<open>
  Claim C2 says that a call with a tool name other than \<open>list_events\<close> and
  \<open>create_event\<close> is answered with status 400 and reaches no provider. The handler does
  raise \<^verbatim>\<open>HTTPException(status_code=400)\<close>, but inside its own \<^verbatim>\<open>try\<close> block, and
  \<^verbatim>\<open>except Exception\<close> catches it and raises the exception of status 500 in its place:
  every such call is answered with status 500, never 400. No effect of any kind is
  performed, so the part about the provider holds.
\<close>

theorem unknown_tool_is_reported_as_500:
  assumes "name request \<noteq> ''list_events''" and "name request \<noteq> ''create_event''"
  shows "(\<exists>detail. call_tool request w = (Inl (HTTPException 500 detail), w))
         \<and> http_status (fst (call_tool request w)) = 500
         \<and> http_status (fst (call_tool request w)) \<noteq> 400
         \<and> performed w (call_tool request w) = []"
  using assms
  by (simp add: call_tool_def call_tool_try_def http_status_def performed_def)

text \<open>The call \<open>delete_event\<close> in the example deployment.\<close>

theorem unknown_tool_is_reported_as_500_witness:
  "http_status (fst (call_tool \<lparr>name = ''delete_event'', arguments = Map.empty\<rparr> example_world))
     = 500
   \<and> performed example_world
        (call_tool \<lparr>name = ''delete_event'', arguments = Map.empty\<rparr> example_world) = []"
  using unknown_tool_is_reported_as_500
    [of "\<lparr>name = ''delete_event'', arguments = Map.empty\<rparr>" example_world]
  by (simp add: http_status_def performed_def)

text \<open>
  Claim C8: a \<open>create_event\<close> call whose arguments lack \<open>summary\<close> or \<open>start_time\<close>
  fails at dispatch -- the subscript raises \<^verbatim>\<open>KeyError\<close> for the first missing key, which
  the handler reports as a failed request whose detail names that key -- before the calendar
  operation runs: the world is left as it was, so no credential is resolved and no
  provider call is made.
\<close>

theorem create_event_missing_argument:
  assumes "name request = ''create_event''"
    and "arguments request ''summary'' = None \<or> arguments request ''start_time'' = None"
  shows "call_tool request w
           = (Inl (HTTPException 500
                (str_exception (KeyError (if arguments request ''summary'' = None
                                          then ''summary'' else ''start_time'')))), w)
         \<and> http_status (fst (call_tool request w)) = 500
         \<and> performed w (call_tool request w) = []"
  using assms
  by (auto simp: call_tool_def call_tool_try_def http_status_def performed_def
      split: option.splits)

text \<open>A call with a summary and no start time.\<close>

theorem create_event_missing_argument_witness:
  "call_tool \<lparr>name = ''create_event'', arguments = [''summary'' \<mapsto> PStr ''Standup'']\<rparr> example_world
     = (Inl (HTTPException 500 [CHR 0x27, CHR ''s'', CHR ''t'', CHR ''a'', CHR ''r'', CHR ''t'',
          CHR ''_'', CHR ''t'', CHR ''i'', CHR ''m'', CHR ''e'', CHR 0x27]), example_world)
   \<and> performed example_world
        (call_tool \<lparr>name = ''create_event'', arguments = [''summary'' \<mapsto> PStr ''Standup'']\<rparr>
           example_world) = []"
  using create_event_missing_argument
    [of "\<lparr>name = ''create_event'', arguments = [''summary'' \<mapsto> PStr ''Standup'']\<rparr>" example_world]
  by (simp add: str_exception_def performed_def)

section \<open>Credential resolution: properties\<close>

lemma build_trace: "trace (snd (build c w)) = trace w @ [BuildClient]"
  by (simp add: build_def record_effect_def Let_def split: option.splits)

lemma build_result:
  "fst (build c w)
     = (case build_error w c of None \<Rightarrow> Inr (Service c) | Some msg \<Rightarrow> Inl (ExternalError msg))"
  by (simp add: build_def Let_def split: option.splits)

lemma build_not_configuration_error: "fst (build c w) \<noteq> Inl CONFIGURATION_ERROR"
  by (simp add: build_result CONFIGURATION_ERROR_def split: option.splits)

text \<open>
  Claim C6, as the code has it: when the refresh-token, client-id and client-secret
  variables are all set and none is the empty string, the resolver makes the credential
  bundle from them with the fixed token endpoint and hands it to the client library; the
  outcome is the library's (the client for that bundle, or the library's error). Building
  the client is the only thing done: the token file and the client-secrets file are
  neither tested, read nor written, and no interactive flow runs.
\<close>

theorem env_credentials_touch_no_server_file:
  assumes "environ w ''GOOGLE_REFRESH_TOKEN'' = Some r" and "r \<noteq> []"
    and "environ w ''GOOGLE_CLIENT_ID'' = Some i" and "i \<noteq> []"
    and "environ w ''GOOGLE_CLIENT_SECRET'' = Some s" and "s \<noteq> []"
  shows "fst (get_calendar_service w)
           = (case build_error w \<lparr>token = None, refresh_token = r,
                                   token_uri = ''https://oauth2.googleapis.com/token'',
                                   client_id = i, client_secret = s, scopes = SCOPES,
                                   expired = False\<rparr> of
                None \<Rightarrow> Inr (Service \<lparr>token = None, refresh_token = r,
                                       token_uri = ''https://oauth2.googleapis.com/token'',
                                       client_id = i, client_secret = s, scopes = SCOPES,
                                       expired = False\<rparr>)
              | Some msg \<Rightarrow> Inl (ExternalError msg))
         \<and> performed w (get_calendar_service w) = [BuildClient]
         \<and> (\<forall>e \<in> set (performed w (get_calendar_service w)).
               \<not> touches_file (TOKEN_FILE w) e \<and> \<not> touches_file (CREDENTIALS_FILE w) e
               \<and> e \<noteq> RunLocalServer)
         \<and> files (snd (get_calendar_service w)) = files w"
proof -
  let ?c = "\<lparr>token = None, refresh_token = r,
             token_uri = ''https://oauth2.googleapis.com/token'',
             client_id = i, client_secret = s, scopes = SCOPES, expired = False\<rparr>"
  have g: "get_calendar_service w = build ?c w"
    using assms by (simp add: get_calendar_service_def truthy_def)
  have p: "performed w (get_calendar_service w) = [BuildClient]"
    by (simp add: g performed_def build_trace)
  have f: "files (snd (build ?c w)) = files w"
    by (simp add: build_def record_effect_def Let_def split: option.splits)
  show ?thesis
    unfolding p unfolding g build_result f
    by (simp add: touches_file_def)
qed

text \<open>The example deployment resolves its credentials from the environment.\<close>

theorem env_credentials_touch_no_server_file_witness:
  "fst (get_calendar_service example_world)
     = Inr (Service \<lparr>token = None, refresh_token = ''1//refresh'',
                     token_uri = ''https://oauth2.googleapis.com/token'',
                     client_id = ''client-id'', client_secret = ''client-secret'',
                     scopes = SCOPES, expired = False\<rparr>)
   \<and> performed example_world (get_calendar_service example_world) = [BuildClient]
   \<and> files (snd (get_calendar_service example_world)) = Map.empty"
  using env_credentials_touch_no_server_file
    [of example_world "''1//refresh''" "''client-id''" "''client-secret''"]
  by (simp add: example_world_def)

text \<open>
  With the three variables merely present the property fails: here the refresh token is
  set to the empty string, and the resolver tests for the token file and the
  client-secrets file. And with all three set and not empty, as in the example
  deployment, the resolver still has the client library build the client, which reads
  files of the library.
\<close>

theorem env_credentials_present_but_empty_counterexample:
  "env_credentials_present (example_world\<lparr>environ := (environ example_world)(''GOOGLE_REFRESH_TOKEN'' \<mapsto> '''')\<rparr>)
   \<and> performed (example_world\<lparr>environ := (environ example_world)(''GOOGLE_REFRESH_TOKEN'' \<mapsto> '''')\<rparr>)
        (get_calendar_service
           (example_world\<lparr>environ := (environ example_world)(''GOOGLE_REFRESH_TOKEN'' \<mapsto> '''')\<rparr>))
       = [PathExists ''/app/token.json'', PathExists ''/app/credentials.json'']
   \<and> is_filesystem_effect (PathExists ''/app/token.json'')
   \<and> env_credentials_present example_world
   \<and> performed example_world (get_calendar_service example_world) = [BuildClient]
   \<and> is_filesystem_effect BuildClient"
  by (simp add: env_credentials_present_def example_world_def get_calendar_service_def truthy_def
      development_mode_def authenticate_def os_path_exists_def record_effect_def TOKEN_FILE_def
      CREDENTIALS_FILE_def path_join_def performed_def is_filesystem_effect_def build_def)

text \<open>
  Claim C9: if any of the three variables is set to the empty string, the resolver
  behaves exactly as the development branch does, and the first thing it does is test
  whether the token file exists.
\<close>

theorem empty_variable_takes_development_path:
  assumes "environ w ''GOOGLE_REFRESH_TOKEN'' = Some []
           \<or> environ w ''GOOGLE_CLIENT_ID'' = Some []
           \<or> environ w ''GOOGLE_CLIENT_SECRET'' = Some []"
  shows "get_calendar_service w = development_mode w
         \<and> (\<exists>es. performed w (get_calendar_service w) = PathExists (TOKEN_FILE w) # es)"
proof -
  have gcs: "get_calendar_service w = development_mode w"
    using assms by (auto simp: get_calendar_service_def truthy_def)
  obtain b w1 where ex: "os_path_exists (TOKEN_FILE w) w = (b, w1)"
    by (cases "os_path_exists (TOKEN_FILE w) w")
  then have w1: "trace w1 = trace w @ [PathExists (TOKEN_FILE w)]"
    by (auto simp: os_path_exists_def record_effect_def)
  have auth: "\<exists>es. trace (snd (authenticate v)) = trace v @ es" for v
    by (auto simp: authenticate_def os_path_exists_def record_effect_def
        from_client_secrets_file_def run_local_server_def write_file_def build_def Let_def
        split: option.splits sum.splits prod.splits bool.splits)
  have "\<exists>es. trace (snd (development_mode w)) = trace w @ PathExists (TOKEN_FILE w) # es"
  proof (cases b)
    case False
    with ex have "development_mode w = authenticate w1"
      by (simp add: development_mode_def)
    with auth [of w1] w1 show ?thesis by auto
  next
    case True
    obtain r w2 where fa: "from_authorized_user_file (TOKEN_FILE w1) w1 = (r, w2)"
      by (cases "from_authorized_user_file (TOKEN_FILE w1) w1")
    then have w2: "trace w2 = trace w1 @ [ReadFile (TOKEN_FILE w1)]"
      by (auto simp: from_authorized_user_file_def record_effect_def Let_def
          split: option.splits sum.splits)
    show ?thesis
    proof (cases r)
      case (Inl e)
      with True ex fa have "development_mode w = (Inl e, w2)"
        by (simp add: development_mode_def)
      with w1 w2 show ?thesis by simp
    next
      case (Inr c)
      with True ex fa have "development_mode w = (if \<not> valid c then authenticate w2 else build c w2)"
        by (simp add: development_mode_def)
      with w1 w2 auth [of w2] build_trace [of c w2] show ?thesis by (cases "valid c") auto
    qed
  qed
  then show ?thesis
    by (auto simp: gcs performed_def)
qed

text \<open>The example deployment with an empty client secret: both files are looked for.\<close>

theorem empty_variable_takes_development_path_witness:
  "get_calendar_service (example_world\<lparr>environ := (environ example_world)(''GOOGLE_CLIENT_SECRET'' \<mapsto> '''')\<rparr>)
     = development_mode (example_world\<lparr>environ := (environ example_world)(''GOOGLE_CLIENT_SECRET'' \<mapsto> '''')\<rparr>)
   \<and> performed (example_world\<lparr>environ := (environ example_world)(''GOOGLE_CLIENT_SECRET'' \<mapsto> '''')\<rparr>)
        (get_calendar_service
           (example_world\<lparr>environ := (environ example_world)(''GOOGLE_CLIENT_SECRET'' \<mapsto> '''')\<rparr>))
       = [PathExists ''/app/token.json'', PathExists ''/app/credentials.json'']"
  using empty_variable_takes_development_path
    [of "example_world\<lparr>environ := (environ example_world)(''GOOGLE_CLIENT_SECRET'' \<mapsto> '''')\<rparr>"]
  by (simp add: example_world_def get_calendar_service_def truthy_def
      development_mode_def authenticate_def os_path_exists_def record_effect_def TOKEN_FILE_def
      CREDENTIALS_FILE_def path_join_def performed_def)

lemma authenticate_configuration_error:
  "fst (authenticate w) = Inl CONFIGURATION_ERROR \<longleftrightarrow> files w (CREDENTIALS_FILE w) = None"
  by (auto simp: authenticate_def os_path_exists_def record_effect_def CONFIGURATION_ERROR_def
      from_client_secrets_file_def run_local_server_def build_def Let_def CREDENTIALS_FILE_def
      split: option.splits sum.splits prod.splits bool.splits)

lemma development_mode_configuration_error:
  "fst (development_mode w) = Inl CONFIGURATION_ERROR \<longleftrightarrow>
     files w (CREDENTIALS_FILE w) = None \<and> token_absent_or_invalid w"
proof (cases "files w (TOKEN_FILE w)")
  case None
  then have "development_mode w = authenticate (record_effect (PathExists (TOKEN_FILE w)) w)"
    by (simp add: development_mode_def os_path_exists_def)
  moreover have "files (record_effect (PathExists (TOKEN_FILE w)) w) = files w"
    "CREDENTIALS_FILE (record_effect (PathExists (TOKEN_FILE w)) w) = CREDENTIALS_FILE w"
    by (simp_all add: record_effect_def CREDENTIALS_FILE_def)
  ultimately show ?thesis
    using None by (simp add: authenticate_configuration_error token_absent_or_invalid_def)
next
  case (Some content)
  define w1 where "w1 = record_effect (PathExists (TOKEN_FILE w)) w"
  define w2 where "w2 = record_effect (ReadFile (TOKEN_FILE w)) w1"
  have frame: "files w2 = files w" "CREDENTIALS_FILE w2 = CREDENTIALS_FILE w"
    "TOKEN_FILE w1 = TOKEN_FILE w" "files w1 = files w"
    "authorized_user_info w1 = authorized_user_info w"
    by (simp_all add: w1_def w2_def record_effect_def CREDENTIALS_FILE_def TOKEN_FILE_def)
  have dm: "development_mode w =
      (case authorized_user_info w content of
         Inl msg \<Rightarrow> (Inl (ExternalError msg), w2)
       | Inr c \<Rightarrow> if \<not> valid c then authenticate w2 else build c w2)"
    using Some frame
    by (simp add: development_mode_def os_path_exists_def from_authorized_user_file_def
        Let_def w1_def [symmetric] w2_def [symmetric] split: sum.splits)
  have ne: "ExternalError msg \<noteq> CONFIGURATION_ERROR" for msg
    by (simp add: CONFIGURATION_ERROR_def)
  show ?thesis
    using Some frame
    by (auto simp: dm token_absent_or_invalid_def authenticate_configuration_error ne
        build_not_configuration_error split: sum.splits)
qed

text \<open>
  Claim C7, as the code has it: credential resolution fails with the configuration error
  exactly when the environment path is unavailable (a variable unset or empty), the
  client-secrets file does not exist, and the token file is either absent or loads to a
  credential that is not valid.
\<close>

theorem configuration_error_iff:
  "fst (get_calendar_service w) = Inl CONFIGURATION_ERROR \<longleftrightarrow>
     \<not> env_credentials_available w \<and> files w (CREDENTIALS_FILE w) = None
     \<and> token_absent_or_invalid w"
proof (cases "env_credentials_available w")
  case True
  then show ?thesis
    by (auto simp: get_calendar_service_def env_credentials_available_def truthy_def
        build_not_configuration_error split: option.splits)
next
  case False
  then have "get_calendar_service w = development_mode w"
    by (auto simp: get_calendar_service_def env_credentials_available_def)
  with False show ?thesis
    by (simp add: development_mode_configuration_error)
qed

text \<open>A development machine with no files at all.\<close>

theorem configuration_error_iff_witness:
  "fst (get_calendar_service (dev_world Map.empty)) = Inl CONFIGURATION_ERROR
   \<and> \<not> env_credentials_available (dev_world Map.empty)
   \<and> files (dev_world Map.empty) (CREDENTIALS_FILE (dev_world Map.empty)) = None
   \<and> token_absent_or_invalid (dev_world Map.empty)"
  using configuration_error_iff [of "dev_world Map.empty"]
  by (simp add: dev_world_def example_world_def env_credentials_available_def truthy_def
      token_absent_or_invalid_def)

text \<open>
  A token file that exists but cannot be loaded is not a usable credential, yet the
  failure is the loader's own error, not the configuration error.
\<close>

theorem malformed_token_file_counterexample:
  "\<not> (fst (get_calendar_service (dev_world [''/app/token.json'' \<mapsto> ''{}'']))
          = Inl CONFIGURATION_ERROR
        \<longleftrightarrow> \<not> env_credentials_available (dev_world [''/app/token.json'' \<mapsto> ''{}''])
            \<and> files (dev_world [''/app/token.json'' \<mapsto> ''{}''])
                  (CREDENTIALS_FILE (dev_world [''/app/token.json'' \<mapsto> ''{}''])) = None
            \<and> \<not> usable_valid_token (dev_world [''/app/token.json'' \<mapsto> ''{}'']))
   \<and> fst (get_calendar_service (dev_world [''/app/token.json'' \<mapsto> ''{}'']))
       = Inl (ExternalError ''missing fields refresh_token'')"
  by (simp add: dev_world_def example_world_def get_calendar_service_def truthy_def
      development_mode_def os_path_exists_def record_effect_def TOKEN_FILE_def
      CREDENTIALS_FILE_def path_join_def from_authorized_user_file_def Let_def
      env_credentials_available_def usable_valid_token_def CONFIGURATION_ERROR_def)


section \<open>Effects of credential resolution\<close>

lemma build_frame:
  assumes "build c w = (r, w')"
  shows "trace w' = trace w @ [BuildClient]"
    and "utc_clock w' = utc_clock w \<and> clock_reads w' = clock_reads w
         \<and> events_list_execute w' = events_list_execute w
         \<and> events_insert_execute w' = events_insert_execute w"
  using assms
  by (auto simp: build_def record_effect_def Let_def split: option.splits)

lemma authenticate_frame:
  assumes "authenticate w = (r, w')"
  shows "\<exists>es. trace w' = trace w @ es \<and> (\<forall>e\<in>set es. \<not> is_provider_call e)"
    and "utc_clock w' = utc_clock w \<and> clock_reads w' = clock_reads w
         \<and> events_list_execute w' = events_list_execute w
         \<and> events_insert_execute w' = events_insert_execute w"
  using assms
  by (auto simp: authenticate_def os_path_exists_def record_effect_def
      from_client_secrets_file_def run_local_server_def write_file_def build_def Let_def
      is_provider_call_def
      split: option.splits sum.splits prod.splits bool.splits)

lemma development_mode_frame:
  assumes "development_mode w = (r, w')"
  shows "\<exists>es. trace w' = trace w @ es \<and> (\<forall>e\<in>set es. \<not> is_provider_call e)"
    and "utc_clock w' = utc_clock w \<and> clock_reads w' = clock_reads w
         \<and> events_list_execute w' = events_list_execute w
         \<and> events_insert_execute w' = events_insert_execute w"
proof -
  define w1 where "w1 = record_effect (PathExists (TOKEN_FILE w)) w"
  define w2 where "w2 = record_effect (ReadFile (TOKEN_FILE w1)) w1"
  have t: "trace w1 = trace w @ [PathExists (TOKEN_FILE w)]"
    "trace w2 = trace w @ [PathExists (TOKEN_FILE w), ReadFile (TOKEN_FILE w1)]"
    by (simp_all add: w1_def w2_def record_effect_def)
  have f: "utc_clock w1 = utc_clock w" "clock_reads w1 = clock_reads w"
    "events_list_execute w1 = events_list_execute w"
    "events_insert_execute w1 = events_insert_execute w"
    "utc_clock w2 = utc_clock w" "clock_reads w2 = clock_reads w"
    "events_list_execute w2 = events_list_execute w"
    "events_insert_execute w2 = events_insert_execute w"
    by (simp_all add: w1_def w2_def record_effect_def)
  from assms consider
      (auth1) "authenticate w1 = (r, w')"
    | (auth2) "authenticate w2 = (r, w')"
    | (stop) "w' = w2"
    | (built) c where "build c w2 = (r, w')"
    by (auto simp: development_mode_def os_path_exists_def from_authorized_user_file_def
        Let_def w1_def [symmetric] w2_def [symmetric]
        split: option.splits sum.splits bool.splits if_splits)
  then have "(\<exists>es. trace w' = trace w @ es \<and> (\<forall>e\<in>set es. \<not> is_provider_call e))
      \<and> (utc_clock w' = utc_clock w \<and> clock_reads w' = clock_reads w
         \<and> events_list_execute w' = events_list_execute w
         \<and> events_insert_execute w' = events_insert_execute w)"
  proof cases
    case auth1
    from authenticate_frame [OF this] t f show ?thesis
      by (auto simp: is_provider_call_def)
  next
    case auth2
    from authenticate_frame [OF this] t f show ?thesis
      by (auto simp: is_provider_call_def)
  next
    case stop
    with t f show ?thesis
      by (auto simp: is_provider_call_def)
  next
    case built
    from build_frame [OF this] t f show ?thesis
      by (auto simp: is_provider_call_def)
  qed
  then show "\<exists>es. trace w' = trace w @ es \<and> (\<forall>e\<in>set es. \<not> is_provider_call e)"
    and "utc_clock w' = utc_clock w \<and> clock_reads w' = clock_reads w
         \<and> events_list_execute w' = events_list_execute w
         \<and> events_insert_execute w' = events_insert_execute w"
    by blast+
qed

lemma get_calendar_service_frame:
  assumes "get_calendar_service w = (r, w')"
  shows "\<exists>es. trace w' = trace w @ es \<and> (\<forall>e\<in>set es. \<not> is_provider_call e)"
    and "utc_clock w' = utc_clock w \<and> clock_reads w' = clock_reads w
         \<and> events_list_execute w' = events_list_execute w
         \<and> events_insert_execute w' = events_insert_execute w"
proof -
  from assms consider (env) c where "build c w = (r, w')" | (dev) "development_mode w = (r, w')"
    by (auto simp: get_calendar_service_def Let_def split: if_splits option.splits)
  then have "(\<exists>es. trace w' = trace w @ es \<and> (\<forall>e\<in>set es. \<not> is_provider_call e))
      \<and> (utc_clock w' = utc_clock w \<and> clock_reads w' = clock_reads w
         \<and> events_list_execute w' = events_list_execute w
         \<and> events_insert_execute w' = events_insert_execute w)"
  proof cases
    case env
    from build_frame [OF this] show ?thesis
      by (auto simp: is_provider_call_def)
  next
    case dev
    from development_mode_frame [OF this] show ?thesis by blast
  qed
  then show "\<exists>es. trace w' = trace w @ es \<and> (\<forall>e\<in>set es. \<not> is_provider_call e)"
    and "utc_clock w' = utc_clock w \<and> clock_reads w' = clock_reads w
         \<and> events_list_execute w' = events_list_execute w
         \<and> events_insert_execute w' = events_insert_execute w"
    by blast+
qed

lemma fromisoformat_valid:
  assumes "fromisoformat v = Inr dt"
  shows "valid_datetime dt"
  using assms
proof -
  from assms obtain y m d h mi s us tz tz' where
    tz: "tzinfo_from_isoformat_results tz = Inr tz'"
    and new: "new_datetime y m d h mi s us tz' = Inr dt"
    by (auto simp: fromisoformat_def Let_def
        split: pyval.splits option.splits prod.splits sum.splits if_splits)
  from tz have "check_utcoffset tz'"
    by (auto simp: tzinfo_from_isoformat_results_def check_utcoffset_def Let_def
        split: option.splits prod.splits if_splits)
  with new show ?thesis
    by (auto simp: new_datetime_def valid_datetime_def split: if_splits)
qed

section \<open>Event creation\<close>

lemma events_insert_trace:
  "trace (snd (events_insert srv cal body w)) = trace w @ [EventsInsert cal body]"
  by (cases srv) (simp add: events_insert_def record_effect_def Let_def split: sum.splits)

text \<open>The calls \<open>create_event\<close> makes to the provider: at most one insertion.\<close>

lemma create_event_performed:
  assumes "get_calendar_service w = (r, w1)"
  shows "performed w (create_event summary start_time duration_minutes w) =
     performed w (r, w1) @
     (case r of
        Inl _ \<Rightarrow> []
      | Inr srv \<Rightarrow>
          (case fromisoformat start_time of
             Inl _ \<Rightarrow> []
           | Inr start_dt \<Rightarrow>
               (case timedelta_minutes duration_minutes of
                  Inl _ \<Rightarrow> []
                | Inr td \<Rightarrow>
                    (case datetime_add start_dt td of
                       Inl _ \<Rightarrow> []
                     | Inr end_dt \<Rightarrow>
                         [EventsInsert ''primary''
                            \<lparr>body_summary = summary,
                             body_start = \<lparr>dateTime = isoformat start_dt,
                               timeZone = (if tzinfo start_dt = None then Some PACIFIC else None)\<rparr>,
                             body_end = \<lparr>dateTime = isoformat end_dt,
                               timeZone = (if tzinfo start_dt = None then Some PACIFIC else None)\<rparr>\<rparr>]))))"
proof -
  from get_calendar_service_frame(1) [OF assms] obtain es where es: "trace w1 = trace w @ es"
    by blast
  have ins: "trace (snd (case events_insert srv cal body w1 of
                (Inl e, w2) \<Rightarrow> (Inl e, w2)
              | (Inr link, w2) \<Rightarrow> (Inr (f link), w2))) = trace w1 @ [EventsInsert cal body]"
    for srv cal body and f :: "pyval option \<Rightarrow> string"
    using events_insert_trace [of srv cal body w1]
    by (cases "events_insert srv cal body w1") (auto split: sum.splits)
  show ?thesis
    using assms es
    by (auto simp: create_event_def performed_def ins Let_def split: sum.splits)
qed

lemma create_event_inserts:
  assumes "EventsInsert cal body \<in> set (performed w (create_event summary start_time duration_minutes w))"
  shows "\<exists>start_dt td end_dt.
           fromisoformat start_time = Inr start_dt
           \<and> timedelta_minutes duration_minutes = Inr td
           \<and> datetime_add start_dt td = Inr end_dt
           \<and> cal = ''primary''
           \<and> body = \<lparr>body_summary = summary,
                      body_start = \<lparr>dateTime = isoformat start_dt,
                        timeZone = (if tzinfo start_dt = None then Some PACIFIC else None)\<rparr>,
                      body_end = \<lparr>dateTime = isoformat end_dt,
                        timeZone = (if tzinfo start_dt = None then Some PACIFIC else None)\<rparr>\<rparr>"
proof -
  obtain r w1 where g: "get_calendar_service w = (r, w1)"
    by (cases "get_calendar_service w")
  from get_calendar_service_frame(1) [OF g] obtain es where
    es: "trace w1 = trace w @ es" "\<forall>e\<in>set es. \<not> is_provider_call e"
    by blast
  have "EventsInsert cal body \<notin> set (performed w (r, w1))"
    using es by (auto simp: performed_def is_provider_call_def)
  with assms have mem: "EventsInsert cal body \<in> set
     (case r of
        Inl _ \<Rightarrow> []
      | Inr srv \<Rightarrow>
          (case fromisoformat start_time of
             Inl _ \<Rightarrow> []
           | Inr start_dt \<Rightarrow>
               (case timedelta_minutes duration_minutes of
                  Inl _ \<Rightarrow> []
                | Inr td \<Rightarrow>
                    (case datetime_add start_dt td of
                       Inl _ \<Rightarrow> []
                     | Inr end_dt \<Rightarrow>
                         [EventsInsert ''primary''
                            \<lparr>body_summary = summary,
                             body_start = \<lparr>dateTime = isoformat start_dt,
                               timeZone = (if tzinfo start_dt = None then Some PACIFIC else None)\<rparr>,
                             body_end = \<lparr>dateTime = isoformat end_dt,
                               timeZone = (if tzinfo start_dt = None then Some PACIFIC else None)\<rparr>\<rparr>]))))"
    unfolding create_event_performed [OF g] by simp
  then obtain srv where r: "r = Inr srv"
    by (cases r) auto
  from mem r obtain start_dt where s: "fromisoformat start_time = Inr start_dt"
    by (cases "fromisoformat start_time") auto
  from mem r s obtain td where t: "timedelta_minutes duration_minutes = Inr td"
    by (cases "timedelta_minutes duration_minutes") auto
  from mem r s t obtain end_dt where e: "datetime_add start_dt td = Inr end_dt"
    by (cases "datetime_add start_dt td") auto
  from mem r s t e show ?thesis
    by simp
qed
subsection \<open>The rendering of a UTC offset\<close>

lemma digit_char_char_of:
  assumes "0 \<le> v" and "v < 10"
  shows "digit_char (nat v) = char_of (48 + v)"
proof -
  from assms have "v = 0 \<or> v = 1 \<or> v = 2 \<or> v = 3 \<or> v = 4 \<or> v = 5 \<or> v = 6 \<or> v = 7 \<or> v = 8 \<or> v = 9"
    by arith
  moreover have "char_of (48 :: int) = CHR ''0''" "char_of (49 :: int) = CHR ''1''"
    "char_of (50 :: int) = CHR ''2''" "char_of (51 :: int) = CHR ''3''"
    "char_of (52 :: int) = CHR ''4''" "char_of (53 :: int) = CHR ''5''"
    "char_of (54 :: int) = CHR ''6''" "char_of (55 :: int) = CHR ''7''"
    "char_of (56 :: int) = CHR ''8''" "char_of (57 :: int) = CHR ''9''"
    by code_simp+
  ultimately show ?thesis
    by (elim disjE) (simp_all add: digit_char_def)
qed

lemma decimal_zero: "decimal n 0 = replicate n (CHR ''0'')"
proof -
  have "char_of (48 :: int) = CHR ''0''" by code_simp
  then show ?thesis
    by (induction n) (simp_all add: replicate_append_same)
qed

lemma mod_mult_div:
  assumes "0 < b" and "0 \<le> c"
  shows "(a :: int) mod (b * c) div b = a div b mod c"
proof -
  have "a mod (b * c) div b = (b * (a div b mod c) + a mod b) div b"
    using assms(2) by (simp add: zmod_zmult2_eq)
  also have "\<dots> = a div b mod c"
    using assms(1) by simp
  finally show ?thesis .
qed

lemma str_nat_pad:
  assumes "0 \<le> v" and "v < 10 ^ Suc k"
  shows "length (str_nat v) \<le> Suc k
         \<and> replicate (Suc k - length (str_nat v)) (CHR ''0'') @ str_nat v = decimal (Suc k) v"
  using assms
proof (induction k arbitrary: v)
  case 0
  then show ?case
    by (simp add: str_nat.simps [of v] digit_char_char_of)
next
  case (Suc k)
  show ?case
  proof (cases "v < 10")
    case True
    with Suc.prems have "v div 10 = 0" "v mod 10 = v" by simp_all
    with True Suc.prems show ?thesis
      by (simp add: str_nat.simps [of v] digit_char_char_of decimal_zero)
  next
    case False
    have s: "str_nat v = str_nat (v div 10) @ [digit_char (nat (v mod 10))]"
      using False by (simp add: str_nat.simps [of v])
    have "0 \<le> v div 10" "v div 10 < 10 ^ Suc k"
      using Suc.prems by simp_all
    from Suc.IH [OF this] have ih: "length (str_nat (v div 10)) \<le> Suc k"
      "replicate (Suc k - length (str_nat (v div 10))) (CHR ''0'') @ str_nat (v div 10)
         = decimal (Suc k) (v div 10)"
      by simp_all
    have d: "digit_char (nat (v mod 10)) = char_of (48 + v mod 10)"
      by (rule digit_char_char_of) simp_all
    show ?thesis
      using ih unfolding s by (simp add: d)
  qed
qed

lemma zero_pad_decimal:
  assumes "0 \<le> v" and "v < 10 ^ w" and "0 < w"
  shows "zero_pad w v = decimal w v"
proof -
  from assms(3) obtain k where w: "w = Suc k" by (cases w) auto
  from str_nat_pad [of v k] assms(1,2) show ?thesis
    unfolding w by (simp add: zero_pad_def str_int_def Let_def)
qed

lemma format_offset_text:
  assumes "- 86400000000 < off" and "off < 86400000000"
  shows "format_offset off = offset_text off"
proof -
  define a where "a = \<bar>off\<bar>"
  have a: "0 \<le> a" "a < 86400000000" using assms by (simp_all add: a_def)
  have mm: "(a mod 3600000000) div 60000000 = a div 60000000 mod 60"
    using mod_mult_div [of 60000000 60 a] by simp
  have ss: "(a mod 60000000) div 1000000 = a div 1000000 mod 60"
    using mod_mult_div [of 1000000 60 a] by simp
  have "a mod 60000000 = 1000000 * (a div 1000000 mod 60) + a mod 1000000"
    using zmod_zmult2_eq [of 60 a 1000000] by simp
  moreover have "0 \<le> a div 1000000 mod 60" "0 \<le> a mod 1000000"
    by simp_all
  ultimately have c: "(a div 1000000 mod 60 \<noteq> 0 \<or> a mod 1000000 \<noteq> 0) \<longleftrightarrow> a mod 60000000 \<noteq> 0"
    by arith
  have p1: "zero_pad 2 (a div 3600000000) = decimal 2 (a div 3600000000)"
    by (rule zero_pad_decimal) (use a in simp_all)
  have p2: "zero_pad 2 (a div 60000000 mod 60) = decimal 2 (a div 60000000 mod 60)"
    by (rule zero_pad_decimal) (simp_all add: order_less_trans [OF pos_mod_bound])
  have p3: "zero_pad 2 (a div 1000000 mod 60) = decimal 2 (a div 1000000 mod 60)"
    by (rule zero_pad_decimal) (simp_all add: order_less_trans [OF pos_mod_bound])
  have p4: "zero_pad 6 (a mod 1000000) = decimal 6 (a mod 1000000)"
    by (rule zero_pad_decimal) simp_all
  show ?thesis
    unfolding format_offset_def offset_text_def Let_def a_def [symmetric] mm ss c p1 p2 p3 p4
    by simp
qed

subsection \<open>The claims about event creation\<close>

text \<open>
  Claim C1, as the code has it: whenever \<open>create_event\<close> sends an event to the provider,
  the time-zone policy follows the parsed start. If the parsed start has no UTC offset,
  both start and end carry the label \<open>America/Los_Angeles\<close> and their timestamps have no
  offset. If it has one, neither carries a label, and both timestamps end with that same
  offset, written afresh in the form \<open>+HH:MM\<close> or \<open>-HH:MM\<close> (followed by \<open>:SS\<close> and \<open>.ffffff\<close>
  only when these are not zero). It is the offset that is kept, not the way the input
  spelled it.
\<close>

theorem create_event_timezone_policy:
  assumes "fromisoformat start_time = Inr start_dt"
    and "EventsInsert cal body
           \<in> set (performed w (create_event summary start_time duration_minutes w))"
  shows "\<exists>end_dt.
           valid_datetime end_dt \<and> tzinfo end_dt = tzinfo start_dt
           \<and> (case tzinfo start_dt of
                 None \<Rightarrow>
                   timeZone (body_start body) = Some ''America/Los_Angeles''
                   \<and> timeZone (body_end body) = Some ''America/Los_Angeles''
                   \<and> dateTime (body_start body) = isoformat_naive start_dt
                   \<and> dateTime (body_end body) = isoformat_naive end_dt
               | Some off \<Rightarrow>
                   timeZone (body_start body) = None \<and> timeZone (body_end body) = None
                   \<and> dateTime (body_start body) = isoformat_naive start_dt @ offset_text off
                   \<and> dateTime (body_end body) = isoformat_naive end_dt @ offset_text off)"
proof -
  from create_event_inserts [OF assms(2)] assms(1) obtain td end_dt where
    add: "datetime_add start_dt td = Inr end_dt"
    and body: "body = \<lparr>body_summary = summary,
                      body_start = \<lparr>dateTime = isoformat start_dt,
                        timeZone = (if tzinfo start_dt = None then Some PACIFIC else None)\<rparr>,
                      body_end = \<lparr>dateTime = isoformat end_dt,
                        timeZone = (if tzinfo start_dt = None then Some PACIFIC else None)\<rparr>\<rparr>"
    by auto
  note a = datetime_add_Inr [OF add]
  have c: "check_utcoffset (tzinfo start_dt)"
    using fromisoformat_valid [OF assms(1)] by (simp add: valid_datetime_def)
  then have v: "valid_datetime end_dt"
    using a(2,3,4) by (simp add: valid_datetime_def)
  have f: "format_offset off = offset_text off" if "tzinfo start_dt = Some off" for off
    using c that by (intro format_offset_text) (simp_all add: check_utcoffset_def)
  show ?thesis
    by (rule exI [of _ end_dt])
      (simp add: body v a(2) isoformat_def PACIFIC_def f split: option.splits)
qed

text \<open>
  The example of the tool's description, thirty minutes from a naive start; an hour from a
  start seven hours behind UTC; and an hour from a start five and a half hours ahead.
\<close>

theorem create_event_timezone_policy_witness:
  "performed example_world
      (create_event (PStr ''Standup'') (PStr ''2024-12-25T10:00:00'') (PInt 30) example_world)
     = [BuildClient,
        EventsInsert ''primary''
          \<lparr>body_summary = PStr ''Standup'',
           body_start = \<lparr>dateTime = ''2024-12-25T10:00:00'',
                         timeZone = Some ''America/Los_Angeles''\<rparr>,
           body_end = \<lparr>dateTime = ''2024-12-25T10:30:00'',
                       timeZone = Some ''America/Los_Angeles''\<rparr>\<rparr>]
   \<and> performed example_world
      (create_event (PStr ''Standup'') (PStr ''2024-12-25T10:00:00-07:00'') (PInt 60) example_world)
     = [BuildClient,
        EventsInsert ''primary''
          \<lparr>body_summary = PStr ''Standup'',
           body_start = \<lparr>dateTime = ''2024-12-25T10:00:00-07:00'', timeZone = None\<rparr>,
           body_end = \<lparr>dateTime = ''2024-12-25T11:00:00-07:00'', timeZone = None\<rparr>\<rparr>]
   \<and> performed example_world
      (create_event (PStr ''Standup'') (PStr ''2024-12-25T10:00:00+05:30'') (PInt 60) example_world)
     = [BuildClient,
        EventsInsert ''primary''
          \<lparr>body_summary = PStr ''Standup'',
           body_start = \<lparr>dateTime = ''2024-12-25T10:00:00+05:30'', timeZone = None\<rparr>,
           body_end = \<lparr>dateTime = ''2024-12-25T11:00:00+05:30'', timeZone = None\<rparr>\<rparr>]
   \<and> (\<exists>end_dt. valid_datetime end_dt \<and> tzinfo end_dt = None
         \<and> ''2024-12-25T10:30:00'' = isoformat_naive end_dt)
   \<and> (\<exists>end_dt. valid_datetime end_dt \<and> tzinfo end_dt = Some (- 25200000000)
         \<and> ''2024-12-25T11:00:00-07:00'' = isoformat_naive end_dt @ ''-07:00'')
   \<and> (\<exists>end_dt. valid_datetime end_dt \<and> tzinfo end_dt = Some 19800000000
         \<and> ''2024-12-25T11:00:00+05:30'' = isoformat_naive end_dt @ ''+05:30'')"
proof -
  let ?naive = "\<lparr>year = 2024, month = 12, day = 25, hour = 10,
          minute = 0, second = 0, microsecond = 0, tzinfo = None\<rparr>"
  let ?west = "\<lparr>year = 2024, month = 12, day = 25, hour = 10,
          minute = 0, second = 0, microsecond = 0, tzinfo = Some (- 25200000000)\<rparr>"
  let ?east = "\<lparr>year = 2024, month = 12, day = 25, hour = 10,
          minute = 0, second = 0, microsecond = 0, tzinfo = Some 19800000000\<rparr>"
  let ?b1 = "\<lparr>body_summary = PStr ''Standup'',
       body_start = \<lparr>dateTime = ''2024-12-25T10:00:00'', timeZone = Some ''America/Los_Angeles''\<rparr>,
       body_end = \<lparr>dateTime = ''2024-12-25T10:30:00'', timeZone = Some ''America/Los_Angeles''\<rparr>\<rparr>"
  let ?b2 = "\<lparr>body_summary = PStr ''Standup'',
       body_start = \<lparr>dateTime = ''2024-12-25T10:00:00-07:00'', timeZone = None\<rparr>,
       body_end = \<lparr>dateTime = ''2024-12-25T11:00:00-07:00'', timeZone = None\<rparr>\<rparr>"
  let ?b3 = "\<lparr>body_summary = PStr ''Standup'',
       body_start = \<lparr>dateTime = ''2024-12-25T10:00:00+05:30'', timeZone = None\<rparr>,
       body_end = \<lparr>dateTime = ''2024-12-25T11:00:00+05:30'', timeZone = None\<rparr>\<rparr>"
  have p1: "fromisoformat (PStr ''2024-12-25T10:00:00'') = Inr ?naive"
    by code_simp
  have p2: "fromisoformat (PStr ''2024-12-25T10:00:00-07:00'') = Inr ?west"
    by code_simp
  have p3: "fromisoformat (PStr ''2024-12-25T10:00:00+05:30'') = Inr ?east"
    by code_simp
  have e1: "performed example_world
      (create_event (PStr ''Standup'') (PStr ''2024-12-25T10:00:00'') (PInt 30) example_world)
      = [BuildClient, EventsInsert ''primary'' ?b1]"
    by code_simp
  have e2: "performed example_world
      (create_event (PStr ''Standup'') (PStr ''2024-12-25T10:00:00-07:00'') (PInt 60) example_world)
      = [BuildClient, EventsInsert ''primary'' ?b2]"
    by code_simp
  have e3: "performed example_world
      (create_event (PStr ''Standup'') (PStr ''2024-12-25T10:00:00+05:30'') (PInt 60) example_world)
      = [BuildClient, EventsInsert ''primary'' ?b3]"
    by code_simp
  have f: "offset_text (- 25200000000) = ''-07:00''" "offset_text 19800000000 = ''+05:30''"
    by code_simp+
  from create_event_timezone_policy [OF p1, of "''primary''" ?b1 example_world "PStr ''Standup''" "PInt 30"]
    create_event_timezone_policy [OF p2, of "''primary''" ?b2 example_world "PStr ''Standup''" "PInt 60"]
    create_event_timezone_policy [OF p3, of "''primary''" ?b3 example_world "PStr ''Standup''" "PInt 60"]
  show ?thesis
    unfolding e1 e2 e3 by (auto simp: f)
qed

text \<open>
  The offset is not kept verbatim. A start written with the offset \<open>-00:00\<close> is sent with
  \<open>+00:00\<close>, one written with \<open>Z\<close> is sent with \<open>+00:00\<close>, and one written with
  \<open>+05:30:00\<close> is sent with \<open>+05:30\<close>; the end timestamps likewise.
\<close>

theorem create_event_offset_spelling_counterexample:
  "performed example_world
      (create_event (PStr ''Standup'') (PStr ''2024-12-25T10:00:00-00:00'') (PInt 60) example_world)
     = [BuildClient,
        EventsInsert ''primary''
          \<lparr>body_summary = PStr ''Standup'',
           body_start = \<lparr>dateTime = ''2024-12-25T10:00:00+00:00'', timeZone = None\<rparr>,
           body_end = \<lparr>dateTime = ''2024-12-25T11:00:00+00:00'', timeZone = None\<rparr>\<rparr>]
   \<and> drop 19 ''2024-12-25T10:00:00-00:00'' = ''-00:00''
   \<and> drop 19 ''2024-12-25T10:00:00+00:00'' = ''+00:00''
   \<and> drop 19 ''2024-12-25T11:00:00+00:00'' = ''+00:00''
   \<and> ''+00:00'' \<noteq> ''-00:00''
   \<and> performed example_world
      (create_event (PStr ''Standup'') (PStr ''2024-12-25T10:00:00Z'') (PInt 60) example_world)
     = [BuildClient,
        EventsInsert ''primary''
          \<lparr>body_summary = PStr ''Standup'',
           body_start = \<lparr>dateTime = ''2024-12-25T10:00:00+00:00'', timeZone = None\<rparr>,
           body_end = \<lparr>dateTime = ''2024-12-25T11:00:00+00:00'', timeZone = None\<rparr>\<rparr>]
   \<and> performed example_world
      (create_event (PStr ''Standup'') (PStr ''2024-12-25T10:00:00+05:30:00'') (PInt 60)
         example_world)
     = [BuildClient,
        EventsInsert ''primary''
          \<lparr>body_summary = PStr ''Standup'',
           body_start = \<lparr>dateTime = ''2024-12-25T10:00:00+05:30'', timeZone = None\<rparr>,
           body_end = \<lparr>dateTime = ''2024-12-25T11:00:00+05:30'', timeZone = None\<rparr>\<rparr>]"
  by code_simp

lemma timedelta_minutes_micros:
  assumes "timedelta_minutes (PInt d) = Inr td"
  shows "timedelta_micros td = 60000000 * d"
  using new_timedelta_Inr(1) [of 0 "60 * d" 0 td] assms
  by (simp add: timedelta_minutes_def)

text \<open>
  Claim C3: whenever \<open>create_event\<close> sends an event to the provider for an integer
  \<open>duration_minutes\<close>, the end timestamp is the ISO rendering of a well-formed datetime
  that lies exactly \<open>duration_minutes\<close> minutes (60000000 microseconds each) after the
  parsed start on the start's own time line, with no rounding.
\<close>

theorem create_event_end_is_start_plus_duration:
  assumes "fromisoformat start_time = Inr start_dt"
    and "EventsInsert cal body
           \<in> set (performed w (create_event summary start_time (PInt d) w))"
  shows "\<exists>end_dt.
           dateTime (body_start body) = isoformat start_dt
           \<and> dateTime (body_end body) = isoformat end_dt
           \<and> valid_datetime end_dt
           \<and> tzinfo end_dt = tzinfo start_dt
           \<and> datetime_micros end_dt = datetime_micros start_dt + 60000000 * d"
proof -
  from create_event_inserts [OF assms(2)] assms(1) obtain td end_dt where
    td: "timedelta_minutes (PInt d) = Inr td"
    and add: "datetime_add start_dt td = Inr end_dt"
    and body: "body = \<lparr>body_summary = summary,
                      body_start = \<lparr>dateTime = isoformat start_dt,
                        timeZone = (if tzinfo start_dt = None then Some PACIFIC else None)\<rparr>,
                      body_end = \<lparr>dateTime = isoformat end_dt,
                        timeZone = (if tzinfo start_dt = None then Some PACIFIC else None)\<rparr>\<rparr>"
    by auto
  note a = datetime_add_Inr [OF add]
  have "check_utcoffset (tzinfo start_dt)"
    using fromisoformat_valid [OF assms(1)] by (simp add: valid_datetime_def)
  then have v: "valid_datetime end_dt"
    using a(2,3,4) by (simp add: valid_datetime_def)
  have m: "datetime_micros end_dt = datetime_micros start_dt + 60000000 * d"
    using a(1) timedelta_minutes_micros [OF td] by simp
  show ?thesis
    by (rule exI [of _ end_dt]) (simp add: body v m a(2))
qed

text \<open>Across the leap day: 24 hours and 30 minutes from 2024-02-28T23:30.\<close>

theorem create_event_end_is_start_plus_duration_witness:
  "performed example_world
      (create_event (PStr ''Review'') (PStr ''2024-02-28T23:30:00'') (PInt 1470) example_world)
     = [BuildClient,
        EventsInsert ''primary''
          \<lparr>body_summary = PStr ''Review'',
           body_start = \<lparr>dateTime = ''2024-02-28T23:30:00'',
                         timeZone = Some ''America/Los_Angeles''\<rparr>,
           body_end = \<lparr>dateTime = ''2024-03-01T00:00:00'',
                       timeZone = Some ''America/Los_Angeles''\<rparr>\<rparr>]
   \<and> (\<exists>end_dt.
         ''2024-03-01T00:00:00'' = isoformat end_dt \<and> valid_datetime end_dt
         \<and> datetime_micros end_dt
             = datetime_micros \<lparr>year = 2024, month = 2, day = 28, hour = 23, minute = 30,
                 second = 0, microsecond = 0, tzinfo = None\<rparr> + 60000000 * 1470)"
proof -
  let ?start = "\<lparr>year = 2024, month = 2, day = 28, hour = 23, minute = 30,
                 second = 0, microsecond = 0, tzinfo = None\<rparr>"
  let ?b = "\<lparr>body_summary = PStr ''Review'',
           body_start = \<lparr>dateTime = ''2024-02-28T23:30:00'',
                         timeZone = Some ''America/Los_Angeles''\<rparr>,
           body_end = \<lparr>dateTime = ''2024-03-01T00:00:00'',
                       timeZone = Some ''America/Los_Angeles''\<rparr>\<rparr>"
  have p: "fromisoformat (PStr ''2024-02-28T23:30:00'') = Inr ?start"
    by code_simp
  have e: "performed example_world
      (create_event (PStr ''Review'') (PStr ''2024-02-28T23:30:00'') (PInt 1470) example_world)
      = [BuildClient, EventsInsert ''primary'' ?b]"
    by code_simp
  from create_event_end_is_start_plus_duration
    [OF p, of "''primary''" ?b example_world "PStr ''Review''" 1470]
  show ?thesis
    unfolding e by auto
qed

lemma create_event_result:
  assumes "get_calendar_service w = (Inr srv, w1)"
    and "fromisoformat start_time = Inr start_dt"
  shows "timedelta_minutes duration_minutes = Inl e \<Longrightarrow>
           create_event summary start_time duration_minutes w = (Inl e, w1)"
    and "timedelta_minutes duration_minutes = Inr td \<Longrightarrow> datetime_add start_dt td = Inl e \<Longrightarrow>
           create_event summary start_time duration_minutes w = (Inl e, w1)"
  using assms by (simp_all add: create_event_def)

text \<open>
  Claim C10, as the code has it: with the service resolved and the start parsed, every
  integer \<open>duration_minutes\<close> -- zero and negative ones included -- for which start plus
  duration lies between 0001-01-01T00:00:00 and 9999-12-31T23:59:59.999999 is accepted:
  the event is built and sent with end = start + duration, so the end is not after the
  start when the duration is not positive. For every other integer the datetime
  arithmetic raises \<^verbatim>\<open>OverflowError\<close> and nothing is sent.
\<close>

theorem create_event_accepts_durations_in_range:
  assumes "get_calendar_service w = (Inr srv, w1)"
    and "fromisoformat start_time = Inr start_dt"
  shows "(MIN_MICROS \<le> datetime_micros start_dt + 60000000 * d
          \<and> datetime_micros start_dt + 60000000 * d \<le> MAX_MICROS \<longrightarrow>
            (\<exists>end_dt.
               datetime_micros end_dt = datetime_micros start_dt + 60000000 * d
               \<and> (d \<le> 0 \<longrightarrow> datetime_micros end_dt \<le> datetime_micros start_dt)
               \<and> performed w (create_event summary start_time (PInt d) w)
                   = performed w (get_calendar_service w) @
                     [EventsInsert ''primary''
                        \<lparr>body_summary = summary,
                         body_start = \<lparr>dateTime = isoformat start_dt,
                           timeZone = (if tzinfo start_dt = None then Some PACIFIC else None)\<rparr>,
                         body_end = \<lparr>dateTime = isoformat end_dt,
                           timeZone = (if tzinfo start_dt = None then Some PACIFIC else None)\<rparr>\<rparr>]))
         \<and> (\<not> (MIN_MICROS \<le> datetime_micros start_dt + 60000000 * d
               \<and> datetime_micros start_dt + 60000000 * d \<le> MAX_MICROS) \<longrightarrow>
            (\<exists>m. create_event summary start_time (PInt d) w = (Inl (OverflowError m), w1)))"
proof (intro conjI impI)
  assume range: "MIN_MICROS \<le> datetime_micros start_dt + 60000000 * d
          \<and> datetime_micros start_dt + 60000000 * d \<le> MAX_MICROS"
  have v: "valid_datetime start_dt"
    by (rule fromisoformat_valid [OF assms(2)])
  from range have "\<bar>60 * d div 86400\<bar> \<le> 999999999"
    by (intro in_range_minutes_small [OF v]) simp_all
  from timedelta_minutes_cases(1) [OF this] obtain td where
    td: "timedelta_minutes (PInt d) = Inr td" "timedelta_micros td = 60000000 * d"
    by blast
  from datetime_add_cases(1) [of start_dt td] range td(2) obtain end_dt where
    add: "datetime_add start_dt td = Inr end_dt"
    by auto
  have m: "datetime_micros end_dt = datetime_micros start_dt + 60000000 * d"
    using datetime_add_Inr(1) [OF add] td(2) by simp
  show "\<exists>end_dt.
          datetime_micros end_dt = datetime_micros start_dt + 60000000 * d
          \<and> (d \<le> 0 \<longrightarrow> datetime_micros end_dt \<le> datetime_micros start_dt)
          \<and> performed w (create_event summary start_time (PInt d) w)
              = performed w (get_calendar_service w) @
                [EventsInsert ''primary''
                   \<lparr>body_summary = summary,
                    body_start = \<lparr>dateTime = isoformat start_dt,
                      timeZone = (if tzinfo start_dt = None then Some PACIFIC else None)\<rparr>,
                    body_end = \<lparr>dateTime = isoformat end_dt,
                      timeZone = (if tzinfo start_dt = None then Some PACIFIC else None)\<rparr>\<rparr>]"
    by (rule exI [of _ end_dt])
      (simp add: m create_event_performed [OF assms(1)] assms td(1) add)
next
  assume out: "\<not> (MIN_MICROS \<le> datetime_micros start_dt + 60000000 * d
          \<and> datetime_micros start_dt + 60000000 * d \<le> MAX_MICROS)"
  show "\<exists>m. create_event summary start_time (PInt d) w = (Inl (OverflowError m), w1)"
  proof (cases "\<bar>60 * d div 86400\<bar> \<le> 999999999")
    case False
    from timedelta_minutes_cases(2) [OF this] obtain m where
      "timedelta_minutes (PInt d) = Inl (OverflowError m)" by blast
    from create_event_result(1) [OF assms this] show ?thesis by blast
  next
    case True
    from timedelta_minutes_cases(1) [OF this] obtain td where
      td: "timedelta_minutes (PInt d) = Inr td" "timedelta_micros td = 60000000 * d"
      by blast
    from datetime_add_cases(2) [of start_dt td] out td(2) obtain m where
      "datetime_add start_dt td = Inl (OverflowError m)"
      by auto
    from create_event_result(2) [OF assms td(1) this] show ?thesis by blast
  qed
qed

text \<open>A negative duration: the event ends 45 minutes before it starts.\<close>

theorem create_event_accepts_durations_in_range_witness:
  "performed example_world
      (create_event (PStr ''Retro'') (PStr ''2024-12-25T10:00:00'') (PInt (- 45)) example_world)
     = [BuildClient,
        EventsInsert ''primary''
          \<lparr>body_summary = PStr ''Retro'',
           body_start = \<lparr>dateTime = ''2024-12-25T10:00:00'',
                         timeZone = Some ''America/Los_Angeles''\<rparr>,
           body_end = \<lparr>dateTime = ''2024-12-25T09:15:00'',
                       timeZone = Some ''America/Los_Angeles''\<rparr>\<rparr>]
   \<and> (\<exists>end_dt.
         datetime_micros end_dt
           = datetime_micros \<lparr>year = 2024, month = 12, day = 25, hour = 10, minute = 0,
               second = 0, microsecond = 0, tzinfo = None\<rparr> + 60000000 * (- 45)
         \<and> datetime_micros end_dt
           \<le> datetime_micros \<lparr>year = 2024, month = 12, day = 25, hour = 10, minute = 0,
               second = 0, microsecond = 0, tzinfo = None\<rparr>
         \<and> ''2024-12-25T09:15:00'' = isoformat end_dt)"
proof -
  let ?start = "\<lparr>year = 2024, month = 12, day = 25, hour = 10, minute = 0,
               second = 0, microsecond = 0, tzinfo = None\<rparr>"
  let ?srv = "Service \<lparr>token = None, refresh_token = ''1//refresh'',
                      token_uri = ''https://oauth2.googleapis.com/token'',
                      client_id = ''client-id'', client_secret = ''client-secret'',
                      scopes = SCOPES, expired = False\<rparr>"
  have g: "get_calendar_service example_world = (Inr ?srv, record_effect BuildClient example_world)"
    by (simp add: get_calendar_service_def example_world_def truthy_def build_def)
  have p: "fromisoformat (PStr ''2024-12-25T10:00:00'') = Inr ?start"
    by code_simp
  have r: "MIN_MICROS \<le> datetime_micros ?start + 60000000 * (- 45)
      \<and> datetime_micros ?start + 60000000 * (- 45) \<le> MAX_MICROS"
    by code_simp
  have e: "performed example_world
      (create_event (PStr ''Retro'') (PStr ''2024-12-25T10:00:00'') (PInt (- 45)) example_world)
     = [BuildClient,
        EventsInsert ''primary''
          \<lparr>body_summary = PStr ''Retro'',
           body_start = \<lparr>dateTime = ''2024-12-25T10:00:00'',
                         timeZone = Some ''America/Los_Angeles''\<rparr>,
           body_end = \<lparr>dateTime = ''2024-12-25T09:15:00'',
                       timeZone = Some ''America/Los_Angeles''\<rparr>\<rparr>]"
    by code_simp
  from create_event_accepts_durations_in_range [OF g p, of "- 45" "PStr ''Retro''"] r
  obtain end_dt where
    "datetime_micros end_dt = datetime_micros ?start + 60000000 * (- 45)"
    "datetime_micros end_dt \<le> datetime_micros ?start"
    "performed example_world
      (create_event (PStr ''Retro'') (PStr ''2024-12-25T10:00:00'') (PInt (- 45)) example_world)
      = performed example_world (get_calendar_service example_world) @
        [EventsInsert ''primary''
           \<lparr>body_summary = PStr ''Retro'',
            body_start = \<lparr>dateTime = isoformat ?start, timeZone = Some PACIFIC\<rparr>,
            body_end = \<lparr>dateTime = isoformat end_dt, timeZone = Some PACIFIC\<rparr>\<rparr>]"
    by auto
  then show ?thesis
    unfolding e by (auto simp: g performed_def record_effect_def example_world_def)
qed

text \<open>
  A duration of minus 1100000000 minutes would end before year 1: the call fails after
  the client is built, and no event is sent.
\<close>

theorem create_event_out_of_range_counterexample:
  "fst (create_event (PStr ''Standup'') (PStr ''2024-12-25T10:00:00'') (PInt (- 1100000000))
          example_world)
     = Inl (OverflowError ''date value out of range'')
   \<and> performed example_world
        (create_event (PStr ''Standup'') (PStr ''2024-12-25T10:00:00'') (PInt (- 1100000000))
           example_world) = [BuildClient]"
  by code_simp

section \<open>Listing events\<close>

lemma events_list_result:
  "events_list (Service creds) q w =
     ((case events_list_execute w creds q of
         Inl msg \<Rightarrow> Inl (ExternalError msg) | Inr items \<Rightarrow> Inr items),
      record_effect (EventsList q) w)"
  by (simp add: events_list_def Let_def split: sum.splits)

lemma timedelta_days_micros:
  assumes "timedelta_days (PInt n) = Inr td"
  shows "timedelta_micros td = 86400000000 * n"
  using new_timedelta_Inr(1) [of n 0 0 td] assms
  by (simp add: timedelta_days_def)

text \<open>What \<open>list_events\<close> does once the service is resolved and the window is computed.\<close>

lemma list_events_unfold:
  assumes "get_calendar_service w = (Inr (Service creds), w1)"
    and "timedelta_days days_ahead = Inr td"
    and "datetime_add (utc_clock w (Suc (clock_reads w))) td = Inr later_dt"
  defines "q \<equiv> \<lparr>calendarId = ''primary'',
                 timeMin = isoformat (utc_clock w (clock_reads w)) @ ''Z'',
                 timeMax = isoformat later_dt @ ''Z'',
                 maxResults = 10, singleEvents = True, orderBy = ''startTime''\<rparr>"
  shows "performed w (list_events days_ahead w)
           = performed w (get_calendar_service w) @ [EventsList q]"
    and "fst (list_events days_ahead w) =
           (case events_list_execute w creds q of
              Inl msg \<Rightarrow> Inl (ExternalError msg)
            | Inr items \<Rightarrow>
                (let events = (case items of None \<Rightarrow> [] | Some xs \<Rightarrow> xs)
                 in if events = [] then Inr NO_EVENTS
                    else (case format_events events of
                            Inl e \<Rightarrow> Inl e
                          | Inr result \<Rightarrow> Inr (join [CHR 0x0A] result))))"
proof -
  note f = get_calendar_service_frame [OF assms(1)]
  from f(1) obtain es where es: "trace w1 = trace w @ es" by blast
  define w3 where "w3 = w1\<lparr>clock_reads := Suc (Suc (clock_reads w1))\<rparr>"
  have w3: "trace w3 = trace w1" "events_list_execute w3 = events_list_execute w"
    using f(2) by (simp_all add: w3_def)
  have le: "list_events days_ahead w =
      (case events_list (Service creds) q w3 of
         (Inl e, w4) \<Rightarrow> (Inl e, w4)
       | (Inr items, w4) \<Rightarrow>
           let events = (case items of None \<Rightarrow> [] | Some xs \<Rightarrow> xs)
           in if events = [] then (Inr NO_EVENTS, w4)
              else (case format_events events of
                      Inl e \<Rightarrow> (Inl e, w4)
                    | Inr result \<Rightarrow> (Inr (join [CHR 0x0A] result), w4)))"
    using assms(1-3) f(2)
    by (simp add: list_events_def utcnow_def Let_def q_def w3_def)
  show "performed w (list_events days_ahead w)
           = performed w (get_calendar_service w) @ [EventsList q]"
    using es w3
    by (auto simp: le events_list_result performed_def assms(1) record_effect_def Let_def
        split: sum.splits)
  show "fst (list_events days_ahead w) =
           (case events_list_execute w creds q of
              Inl msg \<Rightarrow> Inl (ExternalError msg)
            | Inr items \<Rightarrow>
                (let events = (case items of None \<Rightarrow> [] | Some xs \<Rightarrow> xs)
                 in if events = [] then Inr NO_EVENTS
                    else (case format_events events of
                            Inl e \<Rightarrow> Inl e
                          | Inr result \<Rightarrow> Inr (join [CHR 0x0A] result))))"
    using w3 by (auto simp: le events_list_result Let_def split: sum.splits)
qed

text \<open>Without a service or a window there is no query.\<close>

lemma list_events_no_query:
  assumes "get_calendar_service w = (r, w1)"
    and "(\<exists>e. r = Inl e) \<or> (\<exists>e. timedelta_days days_ahead = Inl e)
         \<or> (\<exists>td e. timedelta_days days_ahead = Inr td
               \<and> datetime_add (utc_clock w (Suc (clock_reads w))) td = Inl e)"
  shows "performed w (list_events days_ahead w) = performed w (get_calendar_service w)"
proof -
  note f = get_calendar_service_frame [OF assms(1)]
  from f(1) obtain es where es: "trace w1 = trace w @ es" by blast
  show ?thesis
    using assms es f(2)
    by (auto simp: list_events_def utcnow_def Let_def performed_def split: sum.splits)
qed

lemma list_events_sends:
  assumes "EventsList q \<in> set (performed w (list_events days_ahead w))"
  shows "\<exists>creds w1 td later_dt.
           get_calendar_service w = (Inr (Service creds), w1)
           \<and> timedelta_days days_ahead = Inr td
           \<and> datetime_add (utc_clock w (Suc (clock_reads w))) td = Inr later_dt
           \<and> q = \<lparr>calendarId = ''primary'',
                   timeMin = isoformat (utc_clock w (clock_reads w)) @ ''Z'',
                   timeMax = isoformat later_dt @ ''Z'',
                   maxResults = 10, singleEvents = True, orderBy = ''startTime''\<rparr>"
proof -
  obtain r w1 where g: "get_calendar_service w = (r, w1)"
    by (cases "get_calendar_service w")
  from get_calendar_service_frame(1) [OF g] obtain es where
    es: "trace w1 = trace w @ es" "\<forall>e\<in>set es. \<not> is_provider_call e"
    by blast
  have notin: "EventsList q \<notin> set (performed w (get_calendar_service w))"
    using es by (auto simp: g performed_def is_provider_call_def)
  have no: "\<not> ((\<exists>e. r = Inl e) \<or> (\<exists>e. timedelta_days days_ahead = Inl e)
         \<or> (\<exists>td e. timedelta_days days_ahead = Inr td
               \<and> datetime_add (utc_clock w (Suc (clock_reads w))) td = Inl e))"
    using list_events_no_query [OF g] assms notin by auto
  then obtain srv where r: "r = Inr srv"
    by (cases r) auto
  obtain creds where srv: "srv = Service creds"
    by (cases srv)
  from no obtain td where td: "timedelta_days days_ahead = Inr td"
    by (cases "timedelta_days days_ahead") auto
  from no td obtain later_dt where
    add: "datetime_add (utc_clock w (Suc (clock_reads w))) td = Inr later_dt"
    by (cases "datetime_add (utc_clock w (Suc (clock_reads w))) td") auto
  from list_events_unfold(1) [OF g [unfolded r srv] td add] assms notin
  show ?thesis
    using g r srv td add by auto
qed

subsection \<open>The formatted lines\<close>

lemma format_events_lines:
  assumes "format_events evs = Inr lines"
  shows "list_all2 (\<lambda>ev line. \<exists>st sm.
            ev_start ev = Some st \<and> ev_summary ev = Some sm
            \<and> line = str_pyval (case st ''dateTime'' of
                                   Some v \<Rightarrow> v
                                 | None \<Rightarrow> (case st ''date'' of Some v \<Rightarrow> v | None \<Rightarrow> PNone))
                      @ '': '' @ str_pyval sm) evs lines"
  using assms
proof (induction evs arbitrary: lines)
  case Nil
  then show ?case by simp
next
  case (Cons ev evs)
  from Cons.prems obtain st where st: "ev_start ev = Some st"
    by (cases "ev_start ev") auto
  from Cons.prems st obtain sm where sm: "ev_summary ev = Some sm"
    by (cases "ev_summary ev") (auto simp: Let_def)
  from Cons.prems st sm obtain rest where rest: "format_events evs = Inr rest"
    and lines: "lines = (str_pyval (case st ''dateTime'' of
                                   Some v \<Rightarrow> v
                                 | None \<Rightarrow> (case st ''date'' of Some v \<Rightarrow> v | None \<Rightarrow> PNone))
                      @ '': '' @ str_pyval sm) # rest"
    by (cases "format_events evs") (auto simp: Let_def)
  from Cons.IH [OF rest] st sm show ?case
    unfolding lines by simp
qed

lemma format_events_length:
  assumes "format_events evs = Inr lines"
  shows "length lines = length evs"
  using format_events_lines [OF assms] by (simp add: list_all2_lengthD)

lemma join_contains:
  assumes "l \<in> set xs"
  shows "set l \<subseteq> set (join sep xs)"
  using assms by (induction sep xs rule: join.induct) auto

text \<open>The joined text, written without \<open>join\<close>: every line but the last is followed by the
  separator.\<close>

lemma join_lines:
  assumes "xs \<noteq> []"
  shows "join sep xs = concat (map (\<lambda>l. l @ sep) (butlast xs)) @ last xs"
  using assms by (induction sep xs rule: join.induct) simp_all

lemma formatted_is_not_sentinel:
  assumes "format_events evs = Inr lines" and "evs \<noteq> []"
  shows "join [CHR 0x0A] lines \<noteq> NO_EVENTS"
proof -
  from assms(2) obtain ev evs' where evs: "evs = ev # evs'"
    by (cases evs) auto
  from format_events_lines [OF assms(1)] obtain l ls a b where
    l: "lines = l # ls" "l = a @ '': '' @ b"
    unfolding evs list_all2_Cons1 by blast
  have "CHR '':'' \<in> set l"
    by (simp add: l(2))
  moreover have "set l \<subseteq> set (join [CHR 0x0A] lines)"
    by (rule join_contains) (simp add: l(1))
  ultimately have "CHR '':'' \<in> set (join [CHR 0x0A] lines)" by blast
  moreover have "CHR '':'' \<notin> set NO_EVENTS"
    by (simp add: NO_EVENTS_def)
  ultimately show ?thesis by metis
qed
subsection \<open>The claims about listing\<close>

text \<open>
  Claim C4: when the provider is queried and answers, \<open>list_events\<close> returns exactly
  \<open>No upcoming events found.\<close> if the answer holds no events (an empty or missing
  \<open>items\<close>), and never returns that string otherwise: a non-empty answer is returned as
  one line \<open><start>: <summary>\<close> per event, in the order of the answer, every line but
  the last followed by a line feed (or the call fails with \<^verbatim>\<open>KeyError\<close> when an event
  lacks one of the two keys).
\<close>

theorem list_events_sentinel:
  assumes "get_calendar_service w = (Inr (Service creds), w1)"
    and "EventsList q \<in> set (performed w (list_events days_ahead w))"
    and "events_list_execute w creds q = Inr items"
  shows "((case items of None \<Rightarrow> [] | Some xs \<Rightarrow> xs) = [] \<longrightarrow>
            fst (list_events days_ahead w) = Inr ''No upcoming events found.'')
         \<and> ((case items of None \<Rightarrow> [] | Some xs \<Rightarrow> xs) \<noteq> [] \<longrightarrow>
            fst (list_events days_ahead w) \<noteq> Inr ''No upcoming events found.''
            \<and> (\<forall>s. fst (list_events days_ahead w) = Inr s \<longrightarrow>
                  (\<exists>lines. lines \<noteq> []
                     \<and> s = concat (map (\<lambda>l. l @ [CHR 0x0A]) (butlast lines)) @ last lines
                     \<and> list_all2 (\<lambda>ev line. \<exists>st sm.
                          ev_start ev = Some st \<and> ev_summary ev = Some sm
                          \<and> line = str_pyval (case st ''dateTime'' of
                                 Some v \<Rightarrow> v
                               | None \<Rightarrow> (case st ''date'' of Some v \<Rightarrow> v | None \<Rightarrow> PNone))
                               @ '': '' @ str_pyval sm)
                        (case items of None \<Rightarrow> [] | Some xs \<Rightarrow> xs) lines)))"
proof -
  define evs where "evs = (case items of None \<Rightarrow> [] | Some xs \<Rightarrow> xs)"
  from list_events_sends [OF assms(2)] assms(1) obtain td later_dt where
    td: "timedelta_days days_ahead = Inr td"
    and add: "datetime_add (utc_clock w (Suc (clock_reads w))) td = Inr later_dt"
    and q: "q = \<lparr>calendarId = ''primary'',
                   timeMin = isoformat (utc_clock w (clock_reads w)) @ ''Z'',
                   timeMax = isoformat later_dt @ ''Z'',
                   maxResults = 10, singleEvents = True, orderBy = ''startTime''\<rparr>"
    by auto
  have res: "fst (list_events days_ahead w) =
      (if evs = [] then Inr NO_EVENTS
       else (case format_events evs of
               Inl e \<Rightarrow> Inl e
             | Inr result \<Rightarrow> Inr (join [CHR 0x0A] result)))"
    using list_events_unfold(2) [OF assms(1) td add] assms(3)
    by (simp add: q evs_def Let_def)
  have empty: "fst (list_events days_ahead w) = Inr ''No upcoming events found.''"
    if "evs = []"
    using that by (simp add: res NO_EVENTS_def)
  have nonempty: "fst (list_events days_ahead w) \<noteq> Inr ''No upcoming events found.''
      \<and> (\<forall>s. fst (list_events days_ahead w) = Inr s \<longrightarrow>
            (\<exists>lines. lines \<noteq> []
               \<and> s = concat (map (\<lambda>l. l @ [CHR 0x0A]) (butlast lines)) @ last lines
               \<and> list_all2 (\<lambda>ev line. \<exists>st sm.
                    ev_start ev = Some st \<and> ev_summary ev = Some sm
                    \<and> line = str_pyval (case st ''dateTime'' of
                           Some v \<Rightarrow> v
                         | None \<Rightarrow> (case st ''date'' of Some v \<Rightarrow> v | None \<Rightarrow> PNone))
                         @ '': '' @ str_pyval sm) evs lines))"
    if ne: "evs \<noteq> []"
  proof (cases "format_events evs")
    case (Inl e)
    with ne show ?thesis by (simp add: res)
  next
    case (Inr lines)
    have l: "lines \<noteq> []"
      using format_events_length [OF Inr] ne by auto
    from formatted_is_not_sentinel [OF Inr ne] format_events_lines [OF Inr] ne l
      join_lines [OF l, of "[CHR 0x0A]"]
    show ?thesis
      by (auto simp: res Inr NO_EVENTS_def)
  qed
  from empty nonempty show ?thesis
    unfolding evs_def by blast
qed

text \<open>A provider with nothing to list, and the example provider with its three events.\<close>

theorem list_events_sentinel_witness:
  "fst (list_events (PInt 7) (example_world\<lparr>events_list_execute := \<lambda>_ _. Inr (Some [])\<rparr>))
     = Inr ''No upcoming events found.''
   \<and> fst (list_events (PInt 7) example_world)
       = Inr (''2024-01-01T09:00:00-08:00: Standup'' @ [CHR 0x0A] @ ''2024-01-02: Holiday''
              @ [CHR 0x0A] @ ''2024-01-03T14:30:00-08:00: Review'')
   \<and> fst (list_events (PInt 7) example_world) \<noteq> Inr ''No upcoming events found.''
   \<and> (\<exists>lines. length lines = 3
         \<and> ''2024-01-01T09:00:00-08:00: Standup'' @ [CHR 0x0A] @ ''2024-01-02: Holiday''
              @ [CHR 0x0A] @ ''2024-01-03T14:30:00-08:00: Review''
             = concat (map (\<lambda>l. l @ [CHR 0x0A]) (butlast lines)) @ last lines)"
proof -
  let ?srv = "\<lparr>token = None, refresh_token = ''1//refresh'',
                      token_uri = ''https://oauth2.googleapis.com/token'',
                      client_id = ''client-id'', client_secret = ''client-secret'',
                      scopes = SCOPES, expired = False\<rparr>"
  let ?q = "\<lparr>calendarId = ''primary'', timeMin = ''2024-01-01T00:00:00Z'',
             timeMax = ''2024-01-08T00:00:00.000005Z'', maxResults = 10,
             singleEvents = True, orderBy = ''startTime''\<rparr>"
  let ?w0 = "example_world\<lparr>events_list_execute := \<lambda>_ _. Inr (Some [])\<rparr>"
  let ?text = "''2024-01-01T09:00:00-08:00: Standup'' @ [CHR 0x0A] @ ''2024-01-02: Holiday''
              @ [CHR 0x0A] @ ''2024-01-03T14:30:00-08:00: Review''"
  have g0: "get_calendar_service ?w0 = (Inr (Service ?srv), record_effect BuildClient ?w0)"
    by (simp add: get_calendar_service_def example_world_def truthy_def build_def)
  have g1: "get_calendar_service example_world
              = (Inr (Service ?srv), record_effect BuildClient example_world)"
    by (simp add: get_calendar_service_def example_world_def truthy_def build_def)
  have e0: "performed ?w0 (list_events (PInt 7) ?w0) = [BuildClient, EventsList ?q]"
    by code_simp
  have e1: "performed example_world (list_events (PInt 7) example_world)
              = [BuildClient, EventsList ?q]"
    by code_simp
  have m0: "EventsList ?q \<in> set (performed ?w0 (list_events (PInt 7) ?w0))"
    unfolding e0 by simp
  have m1: "EventsList ?q \<in> set (performed example_world (list_events (PInt 7) example_world))"
    unfolding e1 by simp
  have x0: "events_list_execute ?w0 ?srv ?q = Inr (Some [])"
    by simp
  have x1: "events_list_execute example_world ?srv ?q = Inr (Some example_events)"
    by (simp add: example_world_def)
  have r1: "fst (list_events (PInt 7) example_world) = Inr ?text"
    by code_simp
  have ne: "example_events \<noteq> []"
    by (simp add: example_events_def)
  note t0 = list_events_sentinel [OF g0 m0 x0]
  note t1 = list_events_sentinel [OF g1 m1 x1]
  from t0 have s0: "fst (list_events (PInt 7) ?w0) = Inr ''No upcoming events found.''"
    by simp
  from t1 ne have s1: "fst (list_events (PInt 7) example_world) \<noteq> Inr ''No upcoming events found.''"
    by simp
  from t1 ne r1 obtain lines where
    l: "?text = concat (map (\<lambda>l. l @ [CHR 0x0A]) (butlast lines)) @ last lines"
      "list_all2 (\<lambda>ev line. \<exists>st sm.
          ev_start ev = Some st \<and> ev_summary ev = Some sm
          \<and> line = str_pyval (case st ''dateTime'' of
                 Some v \<Rightarrow> v
               | None \<Rightarrow> (case st ''date'' of Some v \<Rightarrow> v | None \<Rightarrow> PNone))
               @ '': '' @ str_pyval sm) example_events lines"
    by auto
  have "length lines = 3"
    using list_all2_lengthD [OF l(2)] by (simp add: example_events_def)
  with l(1) have "\<exists>lines. length lines = 3
         \<and> ?text = concat (map (\<lambda>l. l @ [CHR 0x0A]) (butlast lines)) @ last lines"
    by blast
  with s0 s1 r1 show ?thesis
    by blast
qed

text \<open>
  Claim C5, as the code has it: for every integer \<open>days_ahead\<close>, a query that
  \<open>list_events\<close> sends is its only provider call; it is on the primary calendar, limited
  to 10 results, with single events ordered by start time; \<open>timeMin\<close> is the first
  reading of the UTC clock and \<open>timeMax\<close> is a second, later reading plus exactly
  \<open>days_ahead\<close> days, each rendered in ISO format with \<open>Z\<close>. The text returned holds one
  line for every event of the provider's answer, none left out, every line but the last
  followed by a line feed: at most 10 lines when the provider keeps to the limit it was
  given; the code itself does not cut the answer.
\<close>

theorem list_events_query:
  assumes "EventsList q \<in> set (performed w (list_events (PInt n) w))"
  shows "calendarId q = ''primary'' \<and> maxResults q = 10 \<and> singleEvents q
         \<and> orderBy q = ''startTime''
         \<and> timeMin q = isoformat (utc_clock w (clock_reads w)) @ ''Z''
         \<and> (\<exists>later.
               timeMax q = isoformat later @ ''Z''
               \<and> tzinfo later = tzinfo (utc_clock w (Suc (clock_reads w)))
               \<and> check_date_fields (year later) (month later) (day later)
               \<and> check_time_fields (hour later) (minute later) (second later) (microsecond later)
               \<and> datetime_micros later
                   = datetime_micros (utc_clock w (Suc (clock_reads w))) + 86400000000 * n)
         \<and> filter is_provider_call (performed w (list_events (PInt n) w)) = [EventsList q]
         \<and> (\<forall>s. fst (list_events (PInt n) w) = Inr s \<longrightarrow>
               s = ''No upcoming events found.''
               \<or> (\<exists>creds w1 evs lines.
                     get_calendar_service w = (Inr (Service creds), w1)
                     \<and> events_list_execute w creds q = Inr (Some evs)
                     \<and> evs \<noteq> []
                     \<and> list_all2 (\<lambda>ev line. \<exists>st sm.
                          ev_start ev = Some st \<and> ev_summary ev = Some sm
                          \<and> line = str_pyval (case st ''dateTime'' of
                                 Some v \<Rightarrow> v
                               | None \<Rightarrow> (case st ''date'' of Some v \<Rightarrow> v | None \<Rightarrow> PNone))
                               @ '': '' @ str_pyval sm) evs lines
                     \<and> length lines = length evs
                     \<and> s = concat (map (\<lambda>l. l @ [CHR 0x0A]) (butlast lines)) @ last lines
                     \<and> (length evs \<le> maxResults q \<longrightarrow> length lines \<le> 10)))"
proof -
  from list_events_sends [OF assms] obtain creds w1 td later_dt where
    g: "get_calendar_service w = (Inr (Service creds), w1)"
    and td: "timedelta_days (PInt n) = Inr td"
    and add: "datetime_add (utc_clock w (Suc (clock_reads w))) td = Inr later_dt"
    and q: "q = \<lparr>calendarId = ''primary'',
                   timeMin = isoformat (utc_clock w (clock_reads w)) @ ''Z'',
                   timeMax = isoformat later_dt @ ''Z'',
                   maxResults = 10, singleEvents = True, orderBy = ''startTime''\<rparr>"
    by blast
  note a = datetime_add_Inr [OF add]
  have later: "\<exists>later.
               timeMax q = isoformat later @ ''Z''
               \<and> tzinfo later = tzinfo (utc_clock w (Suc (clock_reads w)))
               \<and> check_date_fields (year later) (month later) (day later)
               \<and> check_time_fields (hour later) (minute later) (second later) (microsecond later)
               \<and> datetime_micros later
                   = datetime_micros (utc_clock w (Suc (clock_reads w))) + 86400000000 * n"
    using a timedelta_days_micros [OF td]
    by (intro exI [of _ later_dt]) (simp add: q)
  from get_calendar_service_frame(1) [OF g] obtain es where
    es: "trace w1 = trace w @ es" "\<forall>e\<in>set es. \<not> is_provider_call e"
    by blast
  have "filter is_provider_call (performed w (get_calendar_service w)) = []"
    using es by (simp add: g performed_def)
  then have calls: "filter is_provider_call (performed w (list_events (PInt n) w)) = [EventsList q]"
    using list_events_unfold(1) [OF g td add]
    by (simp add: q is_provider_call_def)
  have res: "fst (list_events (PInt n) w) =
           (case events_list_execute w creds q of
              Inl msg \<Rightarrow> Inl (ExternalError msg)
            | Inr items \<Rightarrow>
                (let events = (case items of None \<Rightarrow> [] | Some xs \<Rightarrow> xs)
                 in if events = [] then Inr NO_EVENTS
                    else (case format_events events of
                            Inl e \<Rightarrow> Inl e
                          | Inr result \<Rightarrow> Inr (join [CHR 0x0A] result))))"
    using list_events_unfold(2) [OF g td add] by (simp add: q)
  have out: "s = ''No upcoming events found.''
               \<or> (\<exists>creds w1 evs lines.
                     get_calendar_service w = (Inr (Service creds), w1)
                     \<and> events_list_execute w creds q = Inr (Some evs)
                     \<and> evs \<noteq> []
                     \<and> list_all2 (\<lambda>ev line. \<exists>st sm.
                          ev_start ev = Some st \<and> ev_summary ev = Some sm
                          \<and> line = str_pyval (case st ''dateTime'' of
                                 Some v \<Rightarrow> v
                               | None \<Rightarrow> (case st ''date'' of Some v \<Rightarrow> v | None \<Rightarrow> PNone))
                               @ '': '' @ str_pyval sm) evs lines
                     \<and> length lines = length evs
                     \<and> s = concat (map (\<lambda>l. l @ [CHR 0x0A]) (butlast lines)) @ last lines
                     \<and> (length evs \<le> maxResults q \<longrightarrow> length lines \<le> 10))"
    if s: "fst (list_events (PInt n) w) = Inr s" for s
  proof (cases "events_list_execute w creds q")
    case (Inl msg)
    with s res show ?thesis by simp
  next
    case (Inr items)
    show ?thesis
    proof (cases "(case items of None \<Rightarrow> [] | Some xs \<Rightarrow> xs) = []")
      case True
      with s res Inr show ?thesis by (simp add: NO_EVENTS_def)
    next
      case False
      then obtain evs where items: "items = Some evs" and ne: "evs \<noteq> []"
        by (cases items) auto
      from s res Inr items ne obtain lines where
        lines: "format_events evs = Inr lines" "s = join [CHR 0x0A] lines"
        by (cases "format_events evs") auto
      have len: "length lines = length evs"
        by (rule format_events_length [OF lines(1)])
      with ne have l: "lines \<noteq> []" by auto
      have joined: "s = concat (map (\<lambda>l. l @ [CHR 0x0A]) (butlast lines)) @ last lines"
        unfolding lines(2) by (rule join_lines [OF l])
      have "maxResults q = 10" by (simp add: q)
      with len joined format_events_lines [OF lines(1)] g Inr items ne show ?thesis
        by (intro disjI2 exI [of _ creds] exI [of _ w1] exI [of _ evs] exI [of _ lines]) simp
    qed
  qed
  from later calls out show ?thesis
    by (simp add: q)
qed

text \<open>One day ahead in the example deployment.\<close>

theorem list_events_query_witness:
  "performed example_world (list_events (PInt 1) example_world)
     = [BuildClient,
        EventsList \<lparr>calendarId = ''primary'', timeMin = ''2024-01-01T00:00:00Z'',
          timeMax = ''2024-01-02T00:00:00.000005Z'', maxResults = 10,
          singleEvents = True, orderBy = ''startTime''\<rparr>]
   \<and> ''2024-01-01T00:00:00Z'' = isoformat (example_clock 0) @ ''Z''
   \<and> (\<exists>later. ''2024-01-02T00:00:00.000005Z'' = isoformat later @ ''Z''
         \<and> datetime_micros later = datetime_micros (example_clock 1) + 86400000000 * 1)
   \<and> fst (list_events (PInt 1) example_world)
       = Inr (''2024-01-01T09:00:00-08:00: Standup'' @ [CHR 0x0A] @ ''2024-01-02: Holiday''
              @ [CHR 0x0A] @ ''2024-01-03T14:30:00-08:00: Review'')
   \<and> (\<exists>lines. length lines = 3
         \<and> ''2024-01-01T09:00:00-08:00: Standup'' @ [CHR 0x0A] @ ''2024-01-02: Holiday''
              @ [CHR 0x0A] @ ''2024-01-03T14:30:00-08:00: Review''
             = concat (map (\<lambda>l. l @ [CHR 0x0A]) (butlast lines)) @ last lines)"
proof -
  let ?q = "\<lparr>calendarId = ''primary'', timeMin = ''2024-01-01T00:00:00Z'',
             timeMax = ''2024-01-02T00:00:00.000005Z'', maxResults = 10,
             singleEvents = True, orderBy = ''startTime''\<rparr>"
  let ?text = "''2024-01-01T09:00:00-08:00: Standup'' @ [CHR 0x0A] @ ''2024-01-02: Holiday''
              @ [CHR 0x0A] @ ''2024-01-03T14:30:00-08:00: Review''"
  have e: "performed example_world (list_events (PInt 1) example_world)
             = [BuildClient, EventsList ?q]"
    by code_simp
  have m: "EventsList ?q \<in> set (performed example_world (list_events (PInt 1) example_world))"
    unfolding e by simp
  have r: "fst (list_events (PInt 1) example_world) = Inr ?text"
    by code_simp
  have c: "utc_clock example_world (clock_reads example_world) = example_clock 0"
    "utc_clock example_world (Suc (clock_reads example_world)) = example_clock 1"
    by (simp_all add: example_world_def)
  have x: "events_list_execute example_world creds ?q = Inr (Some example_events)" for creds
    by (simp add: example_world_def)
  have ns: "?text \<noteq> ''No upcoming events found.''"
    by simp
  note t = list_events_query [OF m, unfolded c]
  from t have later: "\<exists>later. ''2024-01-02T00:00:00.000005Z'' = isoformat later @ ''Z''
         \<and> datetime_micros later = datetime_micros (example_clock 1) + 86400000000 * 1"
    by auto
  from t have tmin: "''2024-01-01T00:00:00Z'' = isoformat (example_clock 0) @ ''Z''"
    by simp
  from t r ns obtain creds evs lines where
    l: "events_list_execute example_world creds ?q = Inr (Some evs)"
      "length lines = length evs"
      "?text = concat (map (\<lambda>l. l @ [CHR 0x0A]) (butlast lines)) @ last lines"
    by auto
  from l(1) have "evs = example_events"
    unfolding x by simp
  with l(2) have "length lines = 3"
    by (simp add: example_events_def)
  with l(3) have "\<exists>lines. length lines = 3
         \<and> ?text = concat (map (\<lambda>l. l @ [CHR 0x0A]) (butlast lines)) @ last lines"
    by blast
  with e r later tmin show ?thesis
    by blast
qed

text \<open>
  The window of that query is not exactly 24 hours wide: the clock moved by five
  microseconds between the two readings. And the returned text is not bounded by ten
  lines: when the provider answers the query, limit 10 and all, with eleven events, eleven
  lines come back.
\<close>

theorem list_events_window_and_limit_counterexample:
  "performed example_world (list_events (PInt 1) example_world)
     = [BuildClient,
        EventsList \<lparr>calendarId = ''primary'', timeMin = ''2024-01-01T00:00:00Z'',
          timeMax = ''2024-01-02T00:00:00.000005Z'', maxResults = 10,
          singleEvents = True, orderBy = ''startTime''\<rparr>]
   \<and> window_micros \<lparr>calendarId = ''primary'', timeMin = ''2024-01-01T00:00:00Z'',
          timeMax = ''2024-01-02T00:00:00.000005Z'', maxResults = 10,
          singleEvents = True, orderBy = ''startTime''\<rparr> = Some 86400000005
   \<and> (86400000005 :: int) \<noteq> 24 * 3600 * 1000000
   \<and> performed eleven_events_world (list_events (PInt 1) eleven_events_world)
     = [BuildClient,
        EventsList \<lparr>calendarId = ''primary'', timeMin = ''2024-01-01T00:00:00Z'',
          timeMax = ''2024-01-02T00:00:00.000005Z'', maxResults = 10,
          singleEvents = True, orderBy = ''startTime''\<rparr>]
   \<and> fst (list_events (PInt 1) eleven_events_world)
       = Inr (concat (replicate 10 (''2024-01-02: Holiday'' @ [CHR 0x0A]))
              @ ''2024-01-02: Holiday'')
   \<and> line_count (concat (replicate 10 (''2024-01-02: Holiday'' @ [CHR 0x0A]))
                  @ ''2024-01-02: Holiday'') = 11
   \<and> \<not> (11 :: nat) \<le> 10"
  by code_simp

end
